theory Spec2Isabelle
  imports Complex_Main "HOL-Library.Word" "HOL-Library.List_Lexorder"
begin

unbundle bit_operations_syntax

section \<open>Bytes, status codes and little-endian reads\<close>

text \<open>
  A \<open>rocksdb::Slice\<close>, a \<open>std::string\<close> and a \<open>std::string_view\<close> are modelled by
  their contents, a list of bytes. The status codes are the ones
  \<open>rdb_vector_db.cc\<close> returns; \<open>HA_EXIT_SUCCESS\<close> is the \<open>Inr\<close> side of a
  result. \<open>UNDEFINED_BEHAVIOUR\<close> is not a status code: it marks the places where the
  C++ reads memory outside a buffer, reads an uninitialised variable or calls
  \<open>top()\<close> on an empty queue, so that such an execution is a value of the model
  and is never mistaken for a normal return. \<open>STD_LENGTH_ERROR\<close> is the C++
  exception \<open>std::length_error\<close>, which nothing in this code catches.
\<close>

type_synonym byte = "8 word"
type_synonym bytes = "byte list"

datatype error =
    HA_EXIT_FAILURE
  | HA_ERR_END_OF_FILE
  | HA_ERR_ROCKSDB_CORRUPT_DATA
  | HA_ERR_UNSUPPORTED
  | HA_ERR_QUERY_INTERRUPTED
  | UNDEFINED_BEHAVIOUR
  | STD_LENGTH_ERROR

text \<open>
  A callee's failure as the caller maps it: the scans return
  \<open>HA_ERR_ROCKSDB_CORRUPT_DATA\<close> whenever \<open>DecodeFieldFromValue\<close> or
  \<open>ExtractVectorFromJson\<close> returns non-zero; undefined behaviour stays what it is.
\<close>

definition as_corrupt :: "error \<Rightarrow> error" where
  "as_corrupt e = (if e = UNDEFINED_BEHAVIOUR then UNDEFINED_BEHAVIOUR else HA_ERR_ROCKSDB_CORRUPT_DATA)"

text \<open>The unsigned value of a byte sequence read on a little-endian host.\<close>

fun le_nat :: "bytes \<Rightarrow> nat" where
  "le_nat [] = 0"
| "le_nat (b # bs) = unat b + 256 * le_nat bs"

text \<open>\<open>n\<close> bytes at offset \<open>off\<close>, with no bounds check in the source.\<close>

definition read_le :: "bytes \<Rightarrow> nat \<Rightarrow> nat \<Rightarrow> error + nat" where
  "read_le data off n =
     (if off + n \<le> length data then Inr (le_nat (take n (drop off data)))
      else Inl UNDEFINED_BEHAVIOUR)"

section \<open>The row-value decoder \<open>DecodeFieldFromValue\<close>\<close>

text \<open>
  \<open>FieldInfo\<close> and \<open>TableConfig\<close> are the catalog structures of the key-value
  store; the decoder reads these members of them. The type codes are MySQL's
  \<open>enum_field_types\<close>.
\<close>

record FieldInfo =
  field_type :: nat
  is_nullable :: bool
  length_bytes :: nat
  pack_length :: nat

record TableConfig =
  has_ttl :: bool
  null_bytes_length :: nat

definition MYSQL_TYPE_VARCHAR :: nat where "MYSQL_TYPE_VARCHAR = 15"
definition MYSQL_TYPE_JSON :: nat where "MYSQL_TYPE_JSON = 245"
definition MYSQL_TYPE_BLOB :: nat where "MYSQL_TYPE_BLOB = 252"
definition MYSQL_TYPE_GEOMETRY :: nat where "MYSQL_TYPE_GEOMETRY = 255"

text \<open>
  \<open>index_to_result_pos\<close>: the loop \<open>index_to_result_pos[field_indexs[i]] = i\<close>;
  a later position replaces an earlier one for the same field index.
\<close>

definition index_to_result_pos :: "nat list \<Rightarrow> (nat \<rightharpoonup> nat)" where
  "index_to_result_pos field_indexs =
     fold (\<lambda>(idx, i) m. m(idx \<mapsto> i)) (zip field_indexs [0..<length field_indexs]) Map.empty"

text \<open>
  Storing a slice for field \<open>i\<close> when it is a target field.
\<close>

definition store_field :: "(nat \<rightharpoonup> nat) \<Rightarrow> nat \<Rightarrow> bytes \<Rightarrow> bytes list \<Rightarrow> bytes list" where
  "store_field m i fld field_values =
     (case m i of None \<Rightarrow> field_values | Some p \<Rightarrow> field_values[p := fld])"

text \<open>
  The null test \<open>(null_bytes[i/8] & (1 << (i%8))) != 0\<close>. \<open>nb\<close> is the value from
  the start of the null bitmap on (\<open>None\<close> for the null pointer); the source does
  not compare \<open>i/8\<close> with the bitmap's length, so the read is only limited by the
  end of the value.
\<close>

definition field_is_null :: "bytes option \<Rightarrow> FieldInfo \<Rightarrow> nat \<Rightarrow> error + bool" where
  "field_is_null nb field_info i =
     (case nb of
        None \<Rightarrow> Inr False
      | Some null_bytes \<Rightarrow>
          if \<not> is_nullable field_info then Inr False
          else if i div 8 < length null_bytes then Inr (bit (null_bytes ! (i div 8)) (i mod 8))
          else Inl UNDEFINED_BEHAVIOUR)"

text \<open>
  The length prefix of a variable-length field. A VARCHAR reads one byte when
  \<open>length_bytes = 1\<close> and a \<open>uint16_t\<close> otherwise; a BLOB, JSON or GEOMETRY field
  copies \<open>length_bytes\<close> bytes into a zeroed \<open>size_t\<close>.
\<close>

definition varchar_len :: "FieldInfo \<Rightarrow> bytes \<Rightarrow> error + nat" where
  "varchar_len field_info rest =
     (if length_bytes field_info = 1 then read_le rest 0 1 else read_le rest 0 2)"

definition blob_len :: "FieldInfo \<Rightarrow> bytes \<Rightarrow> error + nat" where
  "blob_len field_info rest =
     (if length_bytes field_info \<le> 8 then read_le rest 0 (length_bytes field_info)
      else Inl UNDEFINED_BEHAVIOUR)"

text \<open>
  One non-null field at the cursor \<open>rest\<close> (the bytes from \<open>pos\<close> on, so that
  \<open>remaining = length rest\<close>): the slice of the field and the cursor behind it.
\<close>

definition parse_field :: "FieldInfo \<Rightarrow> bytes \<Rightarrow> error + (bytes \<times> bytes)" where
  "parse_field field_info rest =
     (if field_type field_info = MYSQL_TYPE_VARCHAR then
        (if length rest < length_bytes field_info then Inl HA_ERR_ROCKSDB_CORRUPT_DATA
         else case varchar_len field_info rest of
                Inl e \<Rightarrow> Inl e
              | Inr len \<Rightarrow>
                  let rest' = drop (length_bytes field_info) rest in
                  if length rest' < len then Inl HA_ERR_ROCKSDB_CORRUPT_DATA
                  else Inr (take len rest', drop len rest'))
      else if field_type field_info = MYSQL_TYPE_BLOB \<or> field_type field_info = MYSQL_TYPE_JSON
              \<or> field_type field_info = MYSQL_TYPE_GEOMETRY then
        (if length rest < length_bytes field_info then Inl HA_ERR_ROCKSDB_CORRUPT_DATA
         else case blob_len field_info rest of
                Inl e \<Rightarrow> Inl e
              | Inr len \<Rightarrow>
                  let rest' = drop (length_bytes field_info) rest in
                  if length rest' < len then Inl HA_ERR_ROCKSDB_CORRUPT_DATA
                  else Inr (take len rest', drop len rest'))
      else
        (if length rest < pack_length field_info then Inl HA_ERR_ROCKSDB_CORRUPT_DATA
         else Inr (take (pack_length field_info) rest, drop (pack_length field_info) rest)))"

text \<open>
  The loop \<open>for (i = 0; i <= max_field_index; i++)\<close> over the field descriptors
  \<open>field_info_list[0..max_field_index]\<close>, started at \<open>i\<close>.
\<close>

fun decode_fields ::
  "bytes option \<Rightarrow> (nat \<rightharpoonup> nat) \<Rightarrow> nat \<Rightarrow> FieldInfo list \<Rightarrow> bytes \<Rightarrow> bytes list
     \<Rightarrow> error + bytes list" where
  "decode_fields nb m i [] rest field_values = Inr field_values"
| "decode_fields nb m i (field_info # fis) rest field_values =
     (case field_is_null nb field_info i of
        Inl e \<Rightarrow> Inl e
      | Inr True \<Rightarrow> decode_fields nb m (Suc i) fis rest (store_field m i [] field_values)
      | Inr False \<Rightarrow>
          (case parse_field field_info rest of
             Inl e \<Rightarrow> Inl e
           | Inr (fld, rest') \<Rightarrow>
               decode_fields nb m (Suc i) fis rest' (store_field m i fld field_values)))"

definition DecodeFieldFromValue ::
  "TableConfig \<Rightarrow> FieldInfo list \<Rightarrow> nat list \<Rightarrow> bytes \<Rightarrow> error + bytes list" where
  "DecodeFieldFromValue table_config field_info_list field_indexs val =
     (if has_ttl table_config \<and> length val < 8 then Inl HA_ERR_ROCKSDB_CORRUPT_DATA
      else
        let after_ttl = (if has_ttl table_config then drop 8 val else val) in
        if 0 < null_bytes_length table_config \<and> length after_ttl < null_bytes_length table_config
        then Inl HA_ERR_ROCKSDB_CORRUPT_DATA
        else
          let null_bytes = (if 0 < null_bytes_length table_config then Some after_ttl else None);
              rest = drop (null_bytes_length table_config) after_ttl
          in
          if field_indexs = [] then Inr []
          else if \<exists>idx \<in> set field_indexs. length field_info_list \<le> idx
          then Inl HA_ERR_ROCKSDB_CORRUPT_DATA
          else
            let max_field_index = fold max field_indexs 0 in
            decode_fields null_bytes (index_to_result_pos field_indexs) 0
              (take (Suc max_field_index) field_info_list) rest
              (replicate (length field_indexs) []))"

section \<open>The typed-array decoder \<open>ExtractVectorFromJson\<close>\<close>

text \<open>
  The template parameter \<open>T\<close> is modelled by what the function uses of it: the
  answers of the type traits (\<open>kind\<close>) and the conversions \<open>static_cast<T>\<close> from a
  boolean, from an integer value, from the \<open>double\<close> with a given bit pattern, and
  the construction from a string.
\<close>

datatype elem_kind = T_bool | T_integral | T_floating | T_string

record 'a elem_type =
  kind :: elem_kind
  of_bool :: "bool \<Rightarrow> 'a"
  of_integer_val :: "int \<Rightarrow> 'a"
  of_double_bits :: "64 word \<Rightarrow> 'a"
  of_string :: "bytes \<Rightarrow> 'a"

definition is_same_bool :: "'a elem_type \<Rightarrow> bool" where
  "is_same_bool T = (kind T = T_bool)"

definition is_integral :: "'a elem_type \<Rightarrow> bool" where
  "is_integral T = (kind T = T_bool \<or> kind T = T_integral)"

definition is_arithmetic :: "'a elem_type \<Rightarrow> bool" where
  "is_arithmetic T = (kind T = T_bool \<or> kind T = T_integral \<or> kind T = T_floating)"

definition is_same_string :: "'a elem_type \<Rightarrow> bool" where
  "is_same_string T = (kind T = T_string)"

text \<open>
  The variable-length string length: the \<open>do ... while (bytes_read < 5)\<close> loop.
  It returns \<open>str_length\<close> (a \<open>uint32_t\<close>) and the position behind the length.
\<close>

function varint_loop :: "bytes \<Rightarrow> nat \<Rightarrow> nat \<Rightarrow> nat \<Rightarrow> error + (nat \<times> nat)" where
  "varint_loop data pos str_length bytes_read =
     (if length data \<le> pos then Inl HA_ERR_ROCKSDB_CORRUPT_DATA
      else
        let b = data ! pos;
            str_length' = (str_length OR push_bit (7 * bytes_read) (unat (b AND 0x7F))) mod 2 ^ 32
        in
        if \<not> bit b 7 then Inr (str_length', Suc pos)
        else if Suc bytes_read < 5 then varint_loop data (Suc pos) str_length' (Suc bytes_read)
        else Inr (str_length', Suc pos))"
  by pat_completeness auto
termination
  by (relation "measure (\<lambda>(data, pos, str_length, bytes_read). 5 - bytes_read)") auto

text \<open>
  One value entry at \<open>entry_pos\<close>; the caller has checked
  \<open>entry_pos + value_entry_size \<le> length\<close>, so the type byte and the offset
  field are inside the input. Reads at \<open>value_offset\<close> go through \<open>read_le\<close>,
  which has no check of its own: what keeps them inside the input is written
  here exactly where the source writes it.
\<close>

definition json_element :: "'a elem_type \<Rightarrow> bytes \<Rightarrow> bool \<Rightarrow> nat \<Rightarrow> error + 'a" where
  "json_element T data large_format entry_pos =
     (let offset_size = (if large_format then 4 else 2) :: nat;
          value_type = data ! entry_pos;
          inlined = (value_type = 0x04 \<or> value_type = 0x05 \<or> value_type = 0x06
                     \<or> (value_type = 0x07 \<and> large_format) \<or> (value_type = 0x08 \<and> large_format));
          field = le_nat (take offset_size (drop (Suc entry_pos) data));
          value_offset = (if inlined then field else field + 1)
      in
      if \<not> inlined \<and> length data \<le> value_offset then Inl HA_ERR_ROCKSDB_CORRUPT_DATA
      else if value_type = 0x04 then
        (let lit_val = value_offset mod 256 in
         if is_same_bool T then
           (if lit_val = 0x01 then Inr (of_bool T True)
            else if lit_val = 0x02 then Inr (of_bool T False)
            else Inl HA_ERR_ROCKSDB_CORRUPT_DATA)
         else if is_integral T then
           (if lit_val = 0x01 then Inr (of_integer_val T 1) else Inr (of_integer_val T 0))
         else Inl HA_ERR_ROCKSDB_CORRUPT_DATA)
      else if value_type = 0x05 then
        (if is_arithmetic T
         then Inr (of_integer_val T (sint (word_of_nat value_offset :: 16 word)))
         else Inl HA_ERR_ROCKSDB_CORRUPT_DATA)
      else if value_type = 0x06 then
        (if is_arithmetic T
         then Inr (of_integer_val T (uint (word_of_nat value_offset :: 16 word)))
         else Inl HA_ERR_ROCKSDB_CORRUPT_DATA)
      else if value_type = 0x07 then
        (if is_arithmetic T then
           (if inlined then Inr (of_integer_val T (sint (word_of_nat value_offset :: 32 word)))
            else case read_le data value_offset 4 of
                   Inl e \<Rightarrow> Inl e
                 | Inr v \<Rightarrow> Inr (of_integer_val T (sint (word_of_nat v :: 32 word))))
         else Inl HA_ERR_ROCKSDB_CORRUPT_DATA)
      else if value_type = 0x08 then
        (if is_arithmetic T then
           (if inlined then Inr (of_integer_val T (uint (word_of_nat value_offset :: 32 word)))
            else case read_le data value_offset 4 of
                   Inl e \<Rightarrow> Inl e
                 | Inr v \<Rightarrow> Inr (of_integer_val T (uint (word_of_nat v :: 32 word))))
         else Inl HA_ERR_ROCKSDB_CORRUPT_DATA)
      else if value_type = 0x09 then
        (if is_arithmetic T then
           (if length data < value_offset + 8 then Inl HA_ERR_ROCKSDB_CORRUPT_DATA
            else case read_le data value_offset 8 of
                   Inl e \<Rightarrow> Inl e
                 | Inr v \<Rightarrow> Inr (of_integer_val T (sint (word_of_nat v :: 64 word))))
         else Inl HA_ERR_ROCKSDB_CORRUPT_DATA)
      else if value_type = 0x0A then
        (if is_arithmetic T then
           (if length data < value_offset + 8 then Inl HA_ERR_ROCKSDB_CORRUPT_DATA
            else case read_le data value_offset 8 of
                   Inl e \<Rightarrow> Inl e
                 | Inr v \<Rightarrow> Inr (of_integer_val T (uint (word_of_nat v :: 64 word))))
         else Inl HA_ERR_ROCKSDB_CORRUPT_DATA)
      else if value_type = 0x0B then
        (if is_arithmetic T then
           (if length data < value_offset + 8 then Inl HA_ERR_ROCKSDB_CORRUPT_DATA
            else case read_le data value_offset 8 of
                   Inl e \<Rightarrow> Inl e
                 | Inr v \<Rightarrow> Inr (of_double_bits T (word_of_nat v)))
         else Inl HA_ERR_ROCKSDB_CORRUPT_DATA)
      else if value_type = 0x0C then
        (if is_same_string T then
           (case varint_loop data value_offset 0 0 of
              Inl e \<Rightarrow> Inl e
            | Inr (str_length, pos) \<Rightarrow>
                if length data < pos + str_length then Inl HA_ERR_ROCKSDB_CORRUPT_DATA
                else Inr (of_string T (take str_length (drop pos data))))
         else Inl HA_ERR_ROCKSDB_CORRUPT_DATA)
      else Inl HA_ERR_ROCKSDB_CORRUPT_DATA)"

text \<open>The loop \<open>for (uint32_t i = 0; i < element_count; i++)\<close>, started at \<open>i\<close>.\<close>

function extract_loop ::
  "'a elem_type \<Rightarrow> bytes \<Rightarrow> bool \<Rightarrow> nat \<Rightarrow> nat \<Rightarrow> 'a list \<Rightarrow> error + 'a list" where
  "extract_loop T data large_format element_count i result =
     (if i < element_count then
        (let offset_size = (if large_format then 4 else 2) :: nat;
             value_entries_start = 1 + 2 * offset_size;
             value_entry_size = 1 + offset_size;
             entry_pos = value_entries_start + i * value_entry_size
         in
         if length data < entry_pos + value_entry_size then Inl HA_ERR_ROCKSDB_CORRUPT_DATA
         else case json_element T data large_format entry_pos of
                Inl e \<Rightarrow> Inl e
              | Inr x \<Rightarrow> extract_loop T data large_format element_count (Suc i) (result @ [x]))
      else Inr result)"
  by pat_completeness auto
termination
  by (relation "measure (\<lambda>(T, data, large_format, element_count, i, result). element_count - i)")
     auto

definition ExtractVectorFromJson :: "'a elem_type \<Rightarrow> bytes \<Rightarrow> error + 'a list" where
  "ExtractVectorFromJson T json_binary =
     (if length json_binary < 1 then Inl HA_ERR_ROCKSDB_CORRUPT_DATA
      else
        let ty = json_binary ! 0 in
        if ty \<noteq> 0x02 \<and> ty \<noteq> 0x03 then Inl HA_ERR_ROCKSDB_CORRUPT_DATA
        else
          let large_format = (ty = 0x03);
              offset_size = (if large_format then 4 else 2) :: nat
          in
          if length json_binary < 1 + 2 * offset_size then Inl HA_ERR_ROCKSDB_CORRUPT_DATA
          else
            let element_count = le_nat (take offset_size (drop 1 json_binary)) in
            extract_loop T json_binary large_format element_count 0 [])"

section \<open>Floating-point values and distances\<close>

text \<open>
  A \<open>float\<close> or \<open>double\<close> is modelled by the real number it denotes, and the
  arithmetic on them by the arithmetic of the reals: rounding is left out, and so
  are the infinities and NaN (scores are linearly ordered in the model).
  \<open>double_value\<close> is the number an IEEE-754 binary64 bit pattern denotes; on the
  patterns of exponent 2047, which denote no number, it follows the formula of the
  normal numbers.
\<close>

definition double_value :: "64 word \<Rightarrow> real" where
  "double_value w =
     (let e = unat (drop_bit 52 w AND 0x7FF);
          m = unat (w AND 0xFFFFFFFFFFFFF);
          mag = (if e = 0 then real m / 2 ^ 1074
                 else if 1075 \<le> e then real (2 ^ 52 + m) * 2 ^ (e - 1075)
                 else real (2 ^ 52 + m) / 2 ^ (1075 - e))
      in if bit w 63 then - mag else mag)"

text \<open>\<open>*reinterpret_cast<const double*>(p + off)\<close> on a little-endian host.\<close>

definition read_double :: "bytes \<Rightarrow> nat \<Rightarrow> error + real" where
  "read_double data off =
     (case read_le data off 8 of Inl e \<Rightarrow> Inl e | Inr v \<Rightarrow> Inr (double_value (word_of_nat v)))"

text \<open>\<open>T = float\<close>: a floating-point type, neither \<open>bool\<close> nor integral nor a string.\<close>

definition float_type :: "real elem_type" where
  "float_type =
     \<lparr>kind = T_floating, of_bool = (\<lambda>b. if b then 1 else 0), of_integer_val = real_of_int,
      of_double_bits = double_value, of_string = (\<lambda>s. 0)\<rparr>"

text \<open>
  \<open>faiss::fvec_L2sqr(x, y, d)\<close>, the squared Euclidean distance of the first \<open>d\<close>
  components. The library reads \<open>d\<close> floats from both pointers; a vector with
  fewer elements is read past its end.
\<close>

definition fvec_L2sqr :: "real list \<Rightarrow> real list \<Rightarrow> nat \<Rightarrow> error + real" where
  "fvec_L2sqr x y d =
     (if d \<le> length x \<and> d \<le> length y
      then Inr (sum_list (map (\<lambda>(a, b). (a - b) * (a - b)) (zip (take d x) (take d y))))
      else Inl UNDEFINED_BEHAVIOUR)"

definition deg2rad :: "real \<Rightarrow> real" where
  "deg2rad d = d * pi / 180"

text \<open>\<open>std::atan2(y, x)\<close> on real numbers.\<close>

definition atan2 :: "real \<Rightarrow> real \<Rightarrow> real" where
  "atan2 y x =
     (if 0 < x then arctan (y / x)
      else if x < 0 then (if 0 \<le> y then arctan (y / x) + pi else arctan (y / x) - pi)
      else if 0 < y then pi / 2
      else if y < 0 then - (pi / 2)
      else 0)"

definition st_distance_simple :: "real \<Rightarrow> real \<Rightarrow> real \<Rightarrow> real \<Rightarrow> real" where
  "st_distance_simple lon1_deg lat1_deg lon2_deg lat2_deg =
     (let R = 6371008.8;
          lat1 = deg2rad lat1_deg;
          lat2 = deg2rad lat2_deg;
          dlat = deg2rad (lat2_deg - lat1_deg);
          dlon = deg2rad (lon2_deg - lon1_deg);
          sin_dlat = sin (dlat * 0.5);
          sin_dlon = sin (dlon * 0.5);
          a = sin_dlat * sin_dlat + cos lat1 * cos lat2 * sin_dlon * sin_dlon;
          c = 2.0 * atan2 (sqrt a) (sqrt (1.0 - a))
      in R * c)"

section \<open>The bounded top-k heap\<close>

text \<open>
  \<open>std::priority_queue<PqElement, ..., cmp>\<close> with \<open>cmp(a, b) = a.first < b.first\<close>:
  \<open>top()\<close> is an element of largest score. The queue is modelled by the list of
  its elements in ascending order of score, the top last. Which of several
  elements of equal score is on top is the standard library's choice; here it is
  the one pushed first.
\<close>

type_synonym 'a PqEntry = "real \<times> 'a"
type_synonym PqElement = "(bytes \<times> bytes) PqEntry"
type_synonym result_row = "bytes \<times> (real \<times> bytes)"

definition pq_push :: "'a PqEntry \<Rightarrow> 'a PqEntry list \<Rightarrow> 'a PqEntry list" where
  "pq_push x h = insort_key fst x h"

definition pq_top :: "'a PqEntry list \<Rightarrow> 'a PqEntry" where
  "pq_top h = last h"

definition pq_pop :: "'a PqEntry list \<Rightarrow> 'a PqEntry list" where
  "pq_pop h = butlast h"

text \<open>
  The two branches that feed the heap. \<open>score\<close> is the first component pushed
  while the heap is below capacity; the other branch compares \<open>distance\<close> with
  the top's score and pushes \<open>distance\<close>. \<open>top()\<close> on an empty queue (possible
  only for \<open>k = 0\<close>) is undefined.
\<close>

definition heap_step ::
  "nat \<Rightarrow> PqElement list \<Rightarrow> real \<Rightarrow> real \<Rightarrow> bytes \<times> bytes \<Rightarrow> error + PqElement list" where
  "heap_step k top_k_heap score distance kv =
     (if length top_k_heap < k then Inr (pq_push (score, kv) top_k_heap)
      else if top_k_heap = [] then Inl UNDEFINED_BEHAVIOUR
      else if distance < fst (pq_top top_k_heap)
      then Inr (pq_push (distance, kv) (pq_pop top_k_heap))
      else Inr top_k_heap)"

text \<open>
  \<open>while (!top_k_heap.empty()) { result.emplace_back(...); top_k_heap.pop(); }\<close>
  followed by \<open>std::reverse\<close>.
\<close>

function drain_heap :: "PqElement list \<Rightarrow> result_row list \<Rightarrow> result_row list" where
  "drain_heap top_k_heap result =
     (if top_k_heap = [] then result
      else
        let top = pq_top top_k_heap in
        drain_heap (pq_pop top_k_heap) (result @ [(fst (snd top), (fst top, snd (snd top)))]))"
  by pat_completeness auto
termination
  by (relation "measure (\<lambda>(top_k_heap, result). length top_k_heap)") (auto simp: pq_pop_def)

definition heap_to_result :: "PqElement list \<Rightarrow> result_row list" where
  "heap_to_result top_k_heap = rev (drain_heap top_k_heap [])"

section \<open>The LSM scan engine \<open>Rdb_vector_index_lsm\<close>\<close>

text \<open>
  The session \<open>THD\<close> as far as this code reads it: the kill flag.
\<close>

record THD =
  killed :: bool

datatype FB_VECTOR_INDEX_METRIC = METRIC_NONE | METRIC_L2 | METRIC_IP

record Rdb_vector_search_params =
  m_metric :: FB_VECTOR_INDEX_METRIC
  m_k :: "32 word"
  m_nprobe :: "32 word"
  m_weight :: real
  m_query_coordinate :: bytes

text \<open>
  The index object with its two collaborators in the key-value store:
  \<open>get_table_info\<close> (\<open>None\<close> when it returns non-zero) and the distance-aware
  iterator \<open>rdb_tx_get_iterator_vector\<close>, given by the rows \<open>(key, value)\<close> it yields
  for a query vector, \<open>k\<close> and \<open>nprobe\<close>. The counter \<open>m_hit\<close> is not modelled.
\<close>

record Rdb_vector_index_lsm =
  lsm_dimension :: nat
  get_table_info :: "(FieldInfo list \<times> TableConfig) option"
  rdb_tx_get_iterator_vector :: "real list \<Rightarrow> 32 word \<Rightarrow> 32 word \<Rightarrow> (bytes \<times> bytes) list"

text \<open>
  The body of \<open>for (iter.seek_to_first(); iter.is_available(); iter.next())\<close> in
  \<open>knn_search_with_value\<close> and \<open>index_scan_with_value\<close>, over the rows the
  iterator yields; \<open>Rdb_vector_lsm_iterator::is_available\<close> is \<open>m_iterator->Valid()\<close>.
  The state is \<open>keys_scanned\<close> and the heap.
\<close>

fun lsm_scan_loop ::
  "TableConfig \<Rightarrow> FieldInfo list \<Rightarrow> real list \<Rightarrow> nat \<Rightarrow> (bytes \<times> bytes) list \<Rightarrow> int
     \<Rightarrow> PqElement list \<Rightarrow> error + (int \<times> PqElement list)" where
  "lsm_scan_loop table_config field_info_list query_vector k [] keys_scanned top_k_heap =
     Inr (keys_scanned, top_k_heap)"
| "lsm_scan_loop table_config field_info_list query_vector k ((key, val) # rows) keys_scanned
     top_k_heap =
     (if val \<noteq> [] then
        (case DecodeFieldFromValue table_config field_info_list [8] val of
           Inl e \<Rightarrow> Inl (as_corrupt e)
         | Inr index_fields \<Rightarrow>
            (case ExtractVectorFromJson float_type (index_fields ! 0) of
               Inl e \<Rightarrow> Inl (as_corrupt e)
             | Inr vector_data \<Rightarrow>
                (case fvec_L2sqr query_vector vector_data (length query_vector) of
                   Inl e \<Rightarrow> Inl e
                 | Inr distance \<Rightarrow>
                    (case heap_step k top_k_heap distance distance (key, val) of
                       Inl e \<Rightarrow> Inl e
                     | Inr top_k_heap' \<Rightarrow>
                         lsm_scan_loop table_config field_info_list query_vector k rows
                           (keys_scanned + 1) top_k_heap'))))
      else lsm_scan_loop table_config field_info_list query_vector k rows (keys_scanned + 1)
             top_k_heap)"

definition knn_search_with_value ::
  "Rdb_vector_index_lsm \<Rightarrow> THD option \<Rightarrow> real list \<Rightarrow> Rdb_vector_search_params
     \<Rightarrow> error + result_row list" where
  "knn_search_with_value index thd query_vector params =
     (let k = unat (m_k params);
          rows = rdb_tx_get_iterator_vector index query_vector (m_k params) (m_nprobe params)
      in case get_table_info index of
           None \<Rightarrow> Inl HA_ERR_ROCKSDB_CORRUPT_DATA
         | Some (field_info_list, table_config) \<Rightarrow>
            (case lsm_scan_loop table_config field_info_list query_vector k rows 0 [] of
               Inl e \<Rightarrow> Inl e
             | Inr (keys_scanned, top_k_heap) \<Rightarrow> Inr (heap_to_result top_k_heap)))"

definition index_scan_with_value ::
  "Rdb_vector_index_lsm \<Rightarrow> THD option \<Rightarrow> real list \<Rightarrow> 32 word \<Rightarrow> error + result_row list" where
  "index_scan_with_value index thd query_vector nprobe =
     (let k = 100;
          rows = rdb_tx_get_iterator_vector index query_vector 500 nprobe
      in case get_table_info index of
           None \<Rightarrow> Inl HA_ERR_ROCKSDB_CORRUPT_DATA
         | Some (field_info_list, table_config) \<Rightarrow>
            (case lsm_scan_loop table_config field_info_list query_vector k rows 0 [] of
               Inl e \<Rightarrow> Inl e
             | Inr (keys_scanned, top_k_heap) \<Rightarrow> Inr (heap_to_result top_k_heap)))"

subsection \<open>The hybrid scan\<close>

text \<open>
  The two loops that look for the first field of type 255 (the spatial column) and
  the first field of type 245 (the vector column); \<open>count\<close> is the running index.
\<close>

fun find_field :: "nat \<Rightarrow> FieldInfo list \<Rightarrow> nat \<Rightarrow> nat option" where
  "find_field ty [] count = None"
| "find_field ty (field_info # fis) count =
     (if field_type field_info = ty then Some count else find_field ty fis (Suc count))"

text \<open>
  \<open>spatial_field_index\<close> and \<open>vector_field_index\<close> are assigned only when the field
  is found (\<open>None\<close>: left uninitialised).
\<close>

definition spatial_field_index :: "FieldInfo list \<Rightarrow> nat option" where
  "spatial_field_index field_info_list =
     (case find_field 255 field_info_list 0 of None \<Rightarrow> None | Some c \<Rightarrow> Some 0)"

definition vector_field_index :: "FieldInfo list \<Rightarrow> nat option" where
  "vector_field_index field_info_list =
     (case find_field 245 field_info_list 0 of
        None \<Rightarrow> None
      | Some c \<Rightarrow> (if find_field 255 field_info_list 0 \<noteq> None then Some 1 else Some 0))"

definition field_indexes_to_extract :: "FieldInfo list \<Rightarrow> nat list" where
  "field_indexes_to_extract field_info_list =
     (case find_field 255 field_info_list 0 of None \<Rightarrow> [] | Some c \<Rightarrow> [c])
     @ (case find_field 245 field_info_list 0 of None \<Rightarrow> [] | Some c \<Rightarrow> [c])"

text \<open>
  One row of non-empty value in the hybrid scan, up to the two distances:
  \<open>(distance, distance_spatial)\<close>.
\<close>

definition hybrid_distances ::
  "TableConfig \<Rightarrow> FieldInfo list \<Rightarrow> real list \<Rightarrow> real \<times> real \<Rightarrow> bytes \<Rightarrow> error + (real \<times> real)" where
  "hybrid_distances table_config field_info_list query_vector query_coordinates val =
     (case DecodeFieldFromValue table_config field_info_list
             (field_indexes_to_extract field_info_list) val of
        Inl e \<Rightarrow> Inl (as_corrupt e)
      | Inr index_fields \<Rightarrow>
         (case vector_field_index field_info_list of
            None \<Rightarrow> Inl UNDEFINED_BEHAVIOUR
          | Some vi \<Rightarrow>
             (case ExtractVectorFromJson float_type (index_fields ! vi) of
                Inl e \<Rightarrow> Inl (as_corrupt e)
              | Inr vector_data \<Rightarrow>
                 (case spatial_field_index field_info_list of
                    None \<Rightarrow> Inl UNDEFINED_BEHAVIOUR
                  | Some si \<Rightarrow>
                     (case read_double (index_fields ! si) 9 of
                        Inl e \<Rightarrow> Inl e
                      | Inr lon \<Rightarrow>
                         (case read_double (index_fields ! si) 17 of
                            Inl e \<Rightarrow> Inl e
                          | Inr lat \<Rightarrow>
                             (let distance_spatial =
                                    st_distance_simple (fst query_coordinates)
                                      (snd query_coordinates) lon lat
                              in case fvec_L2sqr query_vector vector_data (length query_vector) of
                                   Inl e \<Rightarrow> Inl e
                                 | Inr distance \<Rightarrow> Inr (distance, distance_spatial))))))))"

fun lsm_hybrid_loop ::
  "TableConfig \<Rightarrow> FieldInfo list \<Rightarrow> real list \<Rightarrow> real \<times> real \<Rightarrow> real \<Rightarrow> nat
     \<Rightarrow> (bytes \<times> bytes) list \<Rightarrow> int \<Rightarrow> PqElement list \<Rightarrow> error + (int \<times> PqElement list)" where
  "lsm_hybrid_loop table_config field_info_list query_vector qc weight k [] keys_scanned
     top_k_heap = Inr (keys_scanned, top_k_heap)"
| "lsm_hybrid_loop table_config field_info_list query_vector qc weight k ((key, val) # rows)
     keys_scanned top_k_heap =
     (if val \<noteq> [] then
        (case hybrid_distances table_config field_info_list query_vector qc val of
           Inl e \<Rightarrow> Inl e
         | Inr (distance, distance_spatial) \<Rightarrow>
            (case heap_step k top_k_heap (distance + weight * distance_spatial) distance
                    (key, val) of
               Inl e \<Rightarrow> Inl e
             | Inr top_k_heap' \<Rightarrow>
                 lsm_hybrid_loop table_config field_info_list query_vector qc weight k rows
                   (keys_scanned + 1) top_k_heap'))
      else lsm_hybrid_loop table_config field_info_list query_vector qc weight k rows
             (keys_scanned + 1) top_k_heap)"

definition knn_search_hybrid_with_value ::
  "Rdb_vector_index_lsm \<Rightarrow> THD option \<Rightarrow> real list \<Rightarrow> Rdb_vector_search_params
     \<Rightarrow> error + result_row list" where
  "knn_search_hybrid_with_value index thd query_vector params =
     (let k = unat (m_k params);
          rows = rdb_tx_get_iterator_vector index query_vector (m_k params) (m_nprobe params)
      in case get_table_info index of
           None \<Rightarrow> Inl HA_ERR_ROCKSDB_CORRUPT_DATA
         | Some (field_info_list, table_config) \<Rightarrow>
            (case read_double (m_query_coordinate params) 9 of
               Inl e \<Rightarrow> Inl e
             | Inr lon_query \<Rightarrow>
                (case read_double (m_query_coordinate params) 17 of
                   Inl e \<Rightarrow> Inl e
                 | Inr lat_query \<Rightarrow>
                    (case lsm_hybrid_loop table_config field_info_list query_vector
                            (lon_query, lat_query) (m_weight params) k rows 0 [] of
                       Inl e \<Rightarrow> Inl e
                     | Inr (keys_scanned, top_k_heap) \<Rightarrow> Inr (heap_to_result top_k_heap)))))"

section \<open>The key codec\<close>

text \<open>
  Modelled from the spec: \<open>Rdb_string_writer::write_index_id\<close>, \<open>write_uint64\<close> and
  the matching reads of \<open>Rdb_string_reader\<close> live in \<open>rdb_buff.h\<close>, which is not
  among the sources. The spec gives the framing: composite keys are
  \<open>BE32(index_id) || BE64(list_id) || pk_suffix\<close>, fixed width and big-endian.
\<close>

fun be_bytes :: "nat \<Rightarrow> nat \<Rightarrow> bytes" where
  "be_bytes 0 v = []"
| "be_bytes (Suc n) v = word_of_nat (v div 256 ^ n) # be_bytes n v"

definition be_nat :: "bytes \<Rightarrow> nat" where
  "be_nat bs = foldl (\<lambda>a b. a * 256 + unat b) 0 bs"

definition INDEX_NUMBER_SIZE :: nat where
  "INDEX_NUMBER_SIZE = 4"

definition write_inverted_list_key :: "32 word \<Rightarrow> 64 word \<Rightarrow> bytes" where
  "write_inverted_list_key index_id list_id = be_bytes 4 (unat index_id) @ be_bytes 8 (unat list_id)"

text \<open>
  \<open>pk.remove_prefix(INDEX_NUMBER_SIZE)\<close> needs a slice of at least that size; the
  \<open>assert(pk.size() > INDEX_NUMBER_SIZE)\<close> before it is compiled out of a release
  build.
\<close>

definition write_inverted_list_item_key :: "32 word \<Rightarrow> 64 word \<Rightarrow> bytes \<Rightarrow> error + bytes" where
  "write_inverted_list_item_key index_id list_id pk =
     (if length pk < INDEX_NUMBER_SIZE then Inl UNDEFINED_BEHAVIOUR
      else Inr (write_inverted_list_key index_id list_id @ drop INDEX_NUMBER_SIZE pk))"

text \<open>
  \<open>read_inverted_list_key\<close>: on success the reader is left behind the prefix; the
  result is what remains to be read.
\<close>

definition read_inverted_list_key :: "bytes \<Rightarrow> 32 word \<Rightarrow> 64 word \<Rightarrow> error + bytes" where
  "read_inverted_list_key key_slice index_id list_id =
     (if length key_slice < 4 then Inl HA_ERR_ROCKSDB_CORRUPT_DATA
      else
        let actual_index_id = (word_of_nat (be_nat (take 4 key_slice)) :: 32 word);
            rest = drop 4 key_slice
        in
        if actual_index_id \<noteq> index_id then Inl HA_ERR_ROCKSDB_CORRUPT_DATA
        else if length rest < 8 then Inl HA_ERR_ROCKSDB_CORRUPT_DATA
        else
          let actual_list_id = (word_of_nat (be_nat (take 8 rest)) :: 64 word) in
          if actual_list_id \<noteq> list_id then Inl HA_ERR_ROCKSDB_CORRUPT_DATA
          else Inr (drop 8 rest))"

section \<open>The inverted-list iterator \<open>Rdb_vector_iterator\<close>\<close>

text \<open>
  \<open>Rdb_key_def::is_unpack_data_tag\<close> and \<open>Rdb_key_def::get_unpack_header_size\<close> are
  declared outside the sources and are parameters of the model.
\<close>

record unpack_header =
  is_unpack_data_tag :: "byte \<Rightarrow> bool"
  get_unpack_header_size :: "byte \<Rightarrow> nat"

text \<open>
  The per-query context. The predicate \<open>m_pk_index_cond\<close> is evaluated on the
  table row that \<open>m_sk_descr->unpack_record\<close> fills from the key and the value, so
  it is modelled as a function of the two; \<open>unpack_record\<close> is given by the status
  it returns. An undefined read or an exception inside the iterator is recorded in
  \<open>m_error\<close> as \<open>UNDEFINED_BEHAVIOUR\<close> or \<open>STD_LENGTH_ERROR\<close>, so that it is the
  outcome of the query.
\<close>

record Rdb_faiss_inverted_list_context =
  m_thd :: "THD option"
  m_pk_index_cond :: "(bytes \<Rightarrow> bytes \<Rightarrow> bool) option"
  m_sk_descr :: "(bytes \<Rightarrow> bytes \<Rightarrow> error option) option"
  m_error :: "error option"
  m_current_list_size :: nat
  m_list_size_stats :: "(nat \<times> nat) list"
  m_vectorid_key :: "int \<rightharpoonup> bytes"
  m_vector_id :: int

definition new_context ::
  "THD option \<Rightarrow> (bytes \<Rightarrow> bytes \<Rightarrow> bool) option \<Rightarrow> (bytes \<Rightarrow> bytes \<Rightarrow> error option) option
     \<Rightarrow> Rdb_faiss_inverted_list_context" where
  "new_context thd pk_index_cond sk_descr =
     \<lparr>m_thd = thd, m_pk_index_cond = pk_index_cond, m_sk_descr = sk_descr, m_error = None,
      m_current_list_size = 0, m_list_size_stats = [], m_vectorid_key = Map.empty,
      m_vector_id = 1024\<rparr>"

definition on_iterator_end ::
  "Rdb_faiss_inverted_list_context \<Rightarrow> nat \<Rightarrow> Rdb_faiss_inverted_list_context" where
  "on_iterator_end ctx list_id =
     (if m_error ctx = None
      then ctx\<lparr>m_list_size_stats := m_list_size_stats ctx @ [(list_id, m_current_list_size ctx)],
               m_current_list_size := 0\<rparr>
      else ctx\<lparr>m_current_list_size := 0\<rparr>)"

definition on_iterator_record :: "Rdb_faiss_inverted_list_context \<Rightarrow> Rdb_faiss_inverted_list_context" where
  "on_iterator_record ctx = ctx\<lparr>m_current_list_size := m_current_list_size ctx + 1\<rparr>"

definition add_key ::
  "Rdb_faiss_inverted_list_context \<Rightarrow> bytes \<Rightarrow> Rdb_faiss_inverted_list_context \<times> int" where
  "add_key ctx k =
     (let vector_id = m_vector_id ctx in
      (ctx\<lparr>m_vector_id := vector_id + 1,
           m_vectorid_key := (if m_vectorid_key ctx vector_id = None
                              then (m_vectorid_key ctx)(vector_id \<mapsto> k)
                              else m_vectorid_key ctx)\<rparr>,
       vector_id))"

text \<open>
  The iterator: its identity and the records \<open>(key, value)\<close> of the underlying
  store iterator from the current position to the upper bound; \<open>Valid()\<close> is
  ``not empty'' and \<open>Next()\<close> drops the first.
\<close>

record Rdb_vector_iterator =
  m_index_id :: "32 word"
  m_list_id :: "64 word"
  m_code_size :: "32 word"
  m_iterator :: "(bytes \<times> bytes) list"

text \<open>
  The constructor: the store iterator is bounded by the list's key and the key of
  \<open>list_id + 1\<close> and positioned on the first record. \<open>store\<close> is the column family
  in key order; keys compare bytewise.
\<close>

definition new_iterator ::
  "(bytes \<times> bytes) list \<Rightarrow> 32 word \<Rightarrow> 32 word \<Rightarrow> 64 word \<Rightarrow> Rdb_vector_iterator" where
  "new_iterator store index_id code_size list_id =
     \<lparr>m_index_id = index_id, m_list_id = list_id, m_code_size = code_size,
      m_iterator = filter (\<lambda>(k, v). write_inverted_list_key index_id list_id \<le> k
                                  \<and> k < write_inverted_list_key index_id (list_id + 1)) store\<rparr>"

definition iterator_next :: "Rdb_vector_iterator \<Rightarrow> Rdb_vector_iterator" where
  "iterator_next it = it\<lparr>m_iterator := tl (m_iterator it)\<rparr>"

text \<open>
  \<open>get_key_and_value\<close> on the current record. \<open>value_bytes\<close> is an
  \<open>unsigned long\<close>: the difference wraps modulo \<open>2^64\<close> and is never negative.
  \<open>value.reserve(value_bytes)\<close> throws \<open>std::length_error\<close> above the string's
  \<open>max_size()\<close> (\<open>2^62 - 1\<close> in libstdc++). The two copy loops read
  \<open>data()[i]\<close> for \<open>i < header_size\<close> and \<open>data()[i + m_code_size]\<close> for
  \<open>header_size \<le> i < value_bytes\<close>.
\<close>

definition string_max_size :: nat where
  "string_max_size = 2 ^ 62 - 1"

definition get_key_and_value ::
  "unpack_header \<Rightarrow> Rdb_vector_iterator \<Rightarrow> bool \<Rightarrow> error + (bytes \<times> bytes)" where
  "get_key_and_value uh it need_value =
     (case m_iterator it of
        [] \<Rightarrow> Inl UNDEFINED_BEHAVIOUR
      | (key_slice, value_slice) # later \<Rightarrow>
         (case read_inverted_list_key key_slice (m_index_id it) (m_list_id it) of
            Inl rtn \<Rightarrow> Inl rtn
          | Inr remaining \<Rightarrow>
              let pk_size = length remaining in
              if pk_size = 0 then Inl HA_ERR_ROCKSDB_CORRUPT_DATA
              else if \<not> need_value then Inr (key_slice, [])
              else
                let value_bytes =
                      unat ((word_of_nat (length value_slice) :: 64 word) - ucast (m_code_size it))
                in
                if 0 < value_bytes then
                  (if value_slice = [] then Inl UNDEFINED_BEHAVIOUR
                   else
                     let tag = value_slice ! 0 in
                     if \<not> is_unpack_data_tag uh tag then Inl HA_ERR_ROCKSDB_CORRUPT_DATA
                     else
                       let header_size = get_unpack_header_size uh tag in
                       if value_bytes < header_size then Inl HA_ERR_ROCKSDB_CORRUPT_DATA
                       else if string_max_size < value_bytes then Inl STD_LENGTH_ERROR
                       else if length value_slice < header_size then Inl UNDEFINED_BEHAVIOUR
                       else if header_size < value_bytes
                               \<and> length value_slice < value_bytes + unat (m_code_size it)
                       then Inl UNDEFINED_BEHAVIOUR
                       else Inr (key_slice,
                                 take header_size value_slice
                                 @ take (value_bytes - header_size)
                                     (drop (header_size + unat (m_code_size it)) value_slice)))
                else Inr (key_slice, [])))"

text \<open>
  \<open>get_key_and_codes\<close> on the current record. \<open>extra_bytes\<close> is an \<open>int\<close>: the
  low 32 bits of the difference, read as two's complement. On success the context
  counts the record.
\<close>

definition get_key_and_codes ::
  "unpack_header \<Rightarrow> Rdb_faiss_inverted_list_context \<Rightarrow> Rdb_vector_iterator
     \<Rightarrow> Rdb_faiss_inverted_list_context \<times> (error + (bytes \<times> bytes))" where
  "get_key_and_codes uh ctx it =
     (case m_iterator it of
        [] \<Rightarrow> (ctx, Inl UNDEFINED_BEHAVIOUR)
      | (key_slice, codes) # later \<Rightarrow>
         (case read_inverted_list_key key_slice (m_index_id it) (m_list_id it) of
            Inl rtn \<Rightarrow> (ctx, Inl rtn)
          | Inr remaining \<Rightarrow>
              let pk_size = length remaining in
              if pk_size = 0 then (ctx, Inl HA_ERR_ROCKSDB_CORRUPT_DATA)
              else
                let extra_bytes =
                      sint ((word_of_nat (length codes) :: 32 word) - m_code_size it)
                in
                if extra_bytes < 0 then (ctx, Inl HA_ERR_ROCKSDB_CORRUPT_DATA)
                else if 0 < extra_bytes then
                  (if codes = [] then (ctx, Inl UNDEFINED_BEHAVIOUR)
                   else
                     let tag = codes ! 0 in
                     if \<not> is_unpack_data_tag uh tag then (ctx, Inl HA_ERR_ROCKSDB_CORRUPT_DATA)
                     else
                       let header_size = get_unpack_header_size uh tag in
                       if nat extra_bytes < header_size then (ctx, Inl HA_ERR_ROCKSDB_CORRUPT_DATA)
                       else if length codes < header_size + (nat extra_bytes - header_size)
                       then (ctx, Inl UNDEFINED_BEHAVIOUR)
                       else
                         let codes1 = drop header_size codes;
                             codes2 = take (length codes1 - (nat extra_bytes - header_size)) codes1
                         in (on_iterator_record ctx, Inr (key_slice, codes2)))
                else (on_iterator_record ctx, Inr (key_slice, codes))))"

text \<open>
  \<open>get_id_and_codes\<close>: a failure is stored in the context and dummy data (id 42,
  \<open>m_code_size\<close> zero bytes) is handed to the distance library.
\<close>

definition get_id_and_codes ::
  "unpack_header \<Rightarrow> Rdb_faiss_inverted_list_context \<Rightarrow> Rdb_vector_iterator
     \<Rightarrow> Rdb_faiss_inverted_list_context \<times> (int \<times> bytes)" where
  "get_id_and_codes uh ctx it =
     (case get_key_and_codes uh ctx it of
        (ctx1, Inl rtn) \<Rightarrow> (ctx1\<lparr>m_error := Some rtn\<rparr>, (42, replicate (unat (m_code_size it)) 0))
      | (ctx1, Inr (k, codes)) \<Rightarrow>
          (let (ctx2, vector_id) = add_key ctx1 k in (ctx2, (vector_id, codes))))"

text \<open>
  The loop of \<open>is_available\<close>: it stops on the first record that is to be
  reported, on the end of the list, or with an error stored in the context.
\<close>

function is_available_loop ::
  "unpack_header \<Rightarrow> Rdb_faiss_inverted_list_context \<Rightarrow> Rdb_vector_iterator
     \<Rightarrow> Rdb_faiss_inverted_list_context \<times> Rdb_vector_iterator" where
  "is_available_loop uh ctx it =
     (if m_iterator it \<noteq> [] \<and> m_error ctx = None then
        (if (case m_thd ctx of None \<Rightarrow> False | Some thd \<Rightarrow> killed thd)
         then (ctx\<lparr>m_error := Some HA_ERR_QUERY_INTERRUPTED\<rparr>, it)
         else
           (case m_pk_index_cond ctx of
              None \<Rightarrow> (ctx, it)
            | Some pk_index_cond \<Rightarrow>
               (case get_key_and_value uh it True of
                  Inl e \<Rightarrow> (ctx\<lparr>m_error := Some e\<rparr>, it)
                | Inr (sk, sk_value) \<Rightarrow>
                   (case m_sk_descr ctx of
                      None \<Rightarrow> (ctx\<lparr>m_error := Some UNDEFINED_BEHAVIOUR\<rparr>, it)
                    | Some unpack_record \<Rightarrow>
                       (case unpack_record sk sk_value of
                          Some e \<Rightarrow> (ctx\<lparr>m_error := Some e\<rparr>, it)
                        | None \<Rightarrow>
                            if pk_index_cond sk sk_value then (ctx, it)
                            else is_available_loop uh ctx (iterator_next it))))))
      else (ctx, it))"
  by pat_completeness auto
termination
  by (relation "measure (\<lambda>(uh, ctx, it). length (m_iterator it))")
     (auto simp: iterator_next_def)

declare is_available_loop.simps [simp del]

definition is_available ::
  "unpack_header \<Rightarrow> Rdb_faiss_inverted_list_context \<Rightarrow> Rdb_vector_iterator
     \<Rightarrow> Rdb_faiss_inverted_list_context \<times> Rdb_vector_iterator \<times> bool" where
  "is_available uh ctx it =
     (case is_available_loop uh ctx it of
        (ctx1, it1) \<Rightarrow>
          let available = (m_error ctx1 = None \<and> m_iterator it1 \<noteq> []) in
          if \<not> available then (on_iterator_end ctx1 (unat (m_list_id it1)), it1, available)
          else (ctx1, it1, available))"

section \<open>The IVF engine \<open>Rdb_vector_index_ivf\<close>\<close>

text \<open>
  The index: its column family \<open>ivf_store\<close> (records in key order) and the parts of
  the distance library it is built from, which are parameters: the coarse
  quantizer (the list ids it returns for a query and \<open>nprobe\<close>) and the distance of
  a query to stored codes under a metric.
\<close>

record Rdb_vector_index_ivf =
  ivf_dimension :: nat
  ivf_index_id :: "32 word"
  ivf_code_size :: "32 word"
  ivf_store :: "(bytes \<times> bytes) list"
  ivf_unpack_header :: unpack_header
  quantizer_search :: "real list \<Rightarrow> nat \<Rightarrow> int list"
  code_distance :: "FB_VECTOR_INDEX_METRIC \<Rightarrow> real list \<Rightarrow> bytes \<Rightarrow> real"

text \<open>
  Modelled from the spec: the search loop of the distance library
  (\<open>index->search\<close>), which is not part of the repository. The spec describes how
  it drives the iterator: for each probed list an inverted-list iterator is
  constructed and fed to the distance computer; a max-heap of size \<open>k\<close> is
  maintained (push while \<open>size < k\<close>, otherwise pop-and-push if \<open>d < heap.top()\<close>);
  on completion the heap is drained in ascending order. Slots of the output that
  stay unused hold the id \<open>-1\<close>.
\<close>

definition faiss_heap_step :: "nat \<Rightarrow> int PqEntry list \<Rightarrow> real \<Rightarrow> int \<Rightarrow> int PqEntry list" where
  "faiss_heap_step k h d vector_id =
     (if length h < k then pq_push (d, vector_id) h
      else if h \<noteq> [] \<and> d < fst (pq_top h) then pq_push (d, vector_id) (pq_pop h)
      else h)"

lemma is_available_loop_length:
  "length (m_iterator (snd (is_available_loop uh ctx it))) \<le> length (m_iterator it)"
proof (induction uh ctx it rule: is_available_loop.induct)
  case (1 uh ctx it)
  show ?case
  proof (cases "m_iterator it \<noteq> [] \<and> m_error ctx = None
                 \<and> \<not> (case m_thd ctx of None \<Rightarrow> False | Some thd \<Rightarrow> killed thd)")
    case False
    then show ?thesis by (subst is_available_loop.simps) auto
  next
    case True
    show ?thesis
    proof (cases "m_pk_index_cond ctx")
      case None
      with True show ?thesis by (subst is_available_loop.simps) simp
    next
      case (Some cond)
      show ?thesis
      proof (cases "get_key_and_value uh it True")
        case (Inl e)
        with True Some show ?thesis by (subst is_available_loop.simps) simp
      next
        case (Inr kv)
        obtain sk sk_value where kv: "kv = (sk, sk_value)" by (cases kv)
        show ?thesis
        proof (cases "m_sk_descr ctx")
          case None
          with True Some Inr kv show ?thesis by (subst is_available_loop.simps) simp
        next
          case unp: (Some unpack_record)
          show ?thesis
          proof (cases "unpack_record sk sk_value")
            case (Some e)
            with True \<open>m_pk_index_cond ctx = Some cond\<close> Inr kv unp show ?thesis
              by (subst is_available_loop.simps) simp
          next
            case None
            show ?thesis
            proof (cases "cond sk sk_value")
              case True
              with \<open>m_iterator it \<noteq> [] \<and> m_error ctx = None
                 \<and> \<not> (case m_thd ctx of None \<Rightarrow> False | Some thd \<Rightarrow> killed thd)\<close>
                \<open>m_pk_index_cond ctx = Some cond\<close> Inr kv unp None
              show ?thesis by (subst is_available_loop.simps) simp
            next
              case False
              have ih: "length (m_iterator (snd (is_available_loop uh ctx (iterator_next it))))
                          \<le> length (m_iterator (iterator_next it))"
                using "1.IH" \<open>m_iterator it \<noteq> [] \<and> m_error ctx = None
                 \<and> \<not> (case m_thd ctx of None \<Rightarrow> False | Some thd \<Rightarrow> killed thd)\<close>
                  \<open>m_pk_index_cond ctx = Some cond\<close> Inr kv unp None False
                by simp
              have "is_available_loop uh ctx it = is_available_loop uh ctx (iterator_next it)"
                using \<open>m_iterator it \<noteq> [] \<and> m_error ctx = None
                 \<and> \<not> (case m_thd ctx of None \<Rightarrow> False | Some thd \<Rightarrow> killed thd)\<close>
                  \<open>m_pk_index_cond ctx = Some cond\<close> Inr kv unp None False
                by (subst is_available_loop.simps) simp
              with ih show ?thesis by (simp add: iterator_next_def)
            qed
          qed
        qed
      qed
    qed
  qed
qed

lemma is_available_shrinks:
  assumes "is_available uh ctx it = (ctx1, it1, True)"
  shows "length (m_iterator (iterator_next it1)) < length (m_iterator it)"
proof -
  have "it1 = snd (is_available_loop uh ctx it)" and "m_iterator it1 \<noteq> []"
    using assms by (auto simp: is_available_def Let_def split: prod.splits if_splits)
  with is_available_loop_length [of uh ctx it] show ?thesis
    by (cases "m_iterator it1") (auto simp: iterator_next_def)
qed

function scan_codes ::
  "unpack_header \<Rightarrow> (bytes \<Rightarrow> real) \<Rightarrow> nat \<Rightarrow> Rdb_faiss_inverted_list_context
     \<Rightarrow> Rdb_vector_iterator \<Rightarrow> int PqEntry list
     \<Rightarrow> Rdb_faiss_inverted_list_context \<times> int PqEntry list" where
  "scan_codes uh dis_comp k ctx it h =
     (case is_available uh ctx it of
        (ctx1, it1, available) \<Rightarrow>
          if \<not> available then (ctx1, h)
          else
            (case get_id_and_codes uh ctx1 it1 of
               (ctx2, (vector_id, codes)) \<Rightarrow>
                 scan_codes uh dis_comp k ctx2 (iterator_next it1)
                   (faiss_heap_step k h (dis_comp codes) vector_id)))"
  by pat_completeness auto
termination
  by (relation "measure (\<lambda>(uh, dis_comp, k, ctx, it, h). length (m_iterator it))")
     (auto dest: is_available_shrinks [OF sym])

declare scan_codes.simps [simp del]

fun scan_lists ::
  "Rdb_vector_index_ivf \<Rightarrow> (bytes \<Rightarrow> real) \<Rightarrow> nat \<Rightarrow> int list
     \<Rightarrow> Rdb_faiss_inverted_list_context \<Rightarrow> int PqEntry list
     \<Rightarrow> Rdb_faiss_inverted_list_context \<times> int PqEntry list" where
  "scan_lists index dis_comp k [] ctx h = (ctx, h)"
| "scan_lists index dis_comp k (list_no # list_nos) ctx h =
     (if list_no < 0 then scan_lists index dis_comp k list_nos ctx h
      else
        (case scan_codes (ivf_unpack_header index) dis_comp k ctx
                (new_iterator (ivf_store index) (ivf_index_id index) (ivf_code_size index)
                   (word_of_int list_no)) h of
           (ctx1, h1) \<Rightarrow> scan_lists index dis_comp k list_nos ctx1 h1))"

definition faiss_search ::
  "Rdb_vector_index_ivf \<Rightarrow> Rdb_faiss_inverted_list_context \<Rightarrow> real list \<Rightarrow> nat \<Rightarrow> nat
     \<Rightarrow> FB_VECTOR_INDEX_METRIC \<Rightarrow> Rdb_faiss_inverted_list_context \<times> int list \<times> real list" where
  "faiss_search index ctx query_vector k nprobe metric =
     (case scan_lists index (code_distance index metric query_vector) k
             (quantizer_search index query_vector nprobe) ctx [] of
        (ctx1, h) \<Rightarrow>
          (ctx1, map snd h @ replicate (k - length h) (- 1),
                 map fst h @ replicate (k - length h) 0))"

text \<open>
  \<open>populate_result\<close>: the loop over \<open>vector_ids\<close>, with \<open>distances[i]\<close> the head of
  the second list.
\<close>

fun populate_result ::
  "Rdb_faiss_inverted_list_context \<Rightarrow> int list \<Rightarrow> real list \<Rightarrow> (bytes \<times> real) list
     \<Rightarrow> error option \<times> (bytes \<times> real) list" where
  "populate_result ctx [] distances result = (None, result)"
| "populate_result ctx (vector_id # vector_ids) distances result =
     (if vector_id < 0 then (None, result)
      else
        (case m_vectorid_key ctx vector_id of
           None \<Rightarrow> (Some HA_EXIT_FAILURE, result)
         | Some k \<Rightarrow>
             populate_result ctx vector_ids (tl distances) (result @ [(k, hd distances)])))"

text \<open>
  \<open>Rdb_vector_index_ivf::knn_search\<close>: the status and the out-parameter \<open>result\<close>.
  The counters \<open>m_hit\<close> and \<open>m_list_size_stats\<close> of the index are not modelled.
\<close>

definition ivf_knn_search ::
  "Rdb_vector_index_ivf \<Rightarrow> THD option \<Rightarrow> (bytes \<Rightarrow> bytes \<Rightarrow> bool) option
     \<Rightarrow> (bytes \<Rightarrow> bytes \<Rightarrow> error option) option \<Rightarrow> real list \<Rightarrow> Rdb_vector_search_params
     \<Rightarrow> (bytes \<times> real) list \<Rightarrow> error option \<times> (bytes \<times> real) list" where
  "ivf_knn_search index thd pk_index_cond sk_descr query_vector params result =
     (case faiss_search index (new_context thd pk_index_cond sk_descr) query_vector
             (unat (m_k params)) (unat (m_nprobe params)) (m_metric params) of
        (ctx, vector_ids, distances) \<Rightarrow>
          (case m_error ctx of
             Some e \<Rightarrow> (Some e, result)
           | None \<Rightarrow> populate_result ctx vector_ids distances result))"

section \<open>The search-session handler \<open>Rdb_vector_db_handler\<close>\<close>

text \<open>
  The class hierarchy under \<open>Rdb_vector_index\<close> as a tagged variant; a virtual call
  is a case distinction, and an entry a class does not override is the base
  class's \<open>HA_ERR_UNSUPPORTED\<close>.
\<close>

datatype Rdb_vector_index = Lsm_index Rdb_vector_index_lsm | Ivf_index Rdb_vector_index_ivf

definition dimension :: "Rdb_vector_index \<Rightarrow> nat" where
  "dimension index =
     (case index of Lsm_index i \<Rightarrow> lsm_dimension i | Ivf_index i \<Rightarrow> ivf_dimension i)"

definition virtual_knn_search_with_value ::
  "Rdb_vector_index \<Rightarrow> THD option \<Rightarrow> real list \<Rightarrow> Rdb_vector_search_params
     \<Rightarrow> error + result_row list" where
  "virtual_knn_search_with_value index thd query_vector params =
     (case index of
        Lsm_index i \<Rightarrow> knn_search_with_value i thd query_vector params
      | Ivf_index i \<Rightarrow> Inl HA_ERR_UNSUPPORTED)"

definition virtual_knn_search_hybrid_with_value ::
  "Rdb_vector_index \<Rightarrow> THD option \<Rightarrow> real list \<Rightarrow> Rdb_vector_search_params
     \<Rightarrow> error + result_row list" where
  "virtual_knn_search_hybrid_with_value index thd query_vector params =
     (case index of
        Lsm_index i \<Rightarrow> knn_search_hybrid_with_value i thd query_vector params
      | Ivf_index i \<Rightarrow> Inl HA_ERR_UNSUPPORTED)"

definition virtual_knn_search ::
  "Rdb_vector_index \<Rightarrow> THD option \<Rightarrow> (bytes \<Rightarrow> bytes \<Rightarrow> bool) option
     \<Rightarrow> (bytes \<Rightarrow> bytes \<Rightarrow> error option) option \<Rightarrow> real list \<Rightarrow> Rdb_vector_search_params
     \<Rightarrow> (bytes \<times> real) list \<Rightarrow> error option \<times> (bytes \<times> real) list" where
  "virtual_knn_search index thd pk_index_cond sk_descr query_vector params result =
     (case index of
        Lsm_index i \<Rightarrow> (Some HA_ERR_UNSUPPORTED, result)
      | Ivf_index i \<Rightarrow> ivf_knn_search i thd pk_index_cond sk_descr query_vector params result)"

datatype enum_fb_vector_search_type =
    FB_VECTOR_SEARCH_KNN_FIRST
  | FB_VECTOR_SEARCH_INDEX_SCAN
  | FB_VECTOR_SEARCH_KNN_HYBRID

text \<open>
  The handler's members. The two result cursors are positions in the result
  vectors (\<open>cbegin()\<close> is 0). \<open>h_metric\<close>, \<open>h_nprobe\<close>, \<open>h_weight\<close> and
  \<open>h_query_coordinate\<close> are the members \<open>m_metric\<close>, \<open>m_nprobe\<close>, \<open>m_weight\<close> and
  \<open>m_query_coordinate\<close> of the handler, renamed apart from the members of
  \<open>Rdb_vector_search_params\<close>.
\<close>

record Rdb_vector_db_handler =
  m_buffer :: "real list"
  m_search_type :: enum_fb_vector_search_type
  m_search_result :: "(bytes \<times> real) list"
  m_search_result_with_value :: "result_row list"
  m_vector_db_result_iter :: nat
  m_vector_db_result_with_value_iter :: nat
  h_metric :: FB_VECTOR_INDEX_METRIC
  m_limit :: "32 word"
  h_nprobe :: "32 word"
  h_weight :: real
  h_query_coordinate :: bytes

text \<open>
  \<open>Rdb_vector_db_handler::knn_search\<close>: the status (\<open>None\<close> for
  \<open>HA_EXIT_SUCCESS\<close>) and the handler after the call. An entry of the LSM index
  that fails has cleared its out-parameter.
\<close>

definition handler_knn_search ::
  "Rdb_vector_db_handler \<Rightarrow> THD option \<Rightarrow> Rdb_vector_index
     \<Rightarrow> (bytes \<Rightarrow> bytes \<Rightarrow> error option) option \<Rightarrow> (bytes \<Rightarrow> bytes \<Rightarrow> bool) option
     \<Rightarrow> error option \<times> Rdb_vector_db_handler" where
  "handler_knn_search h thd index sk_descr pk_index_cond =
     (let h1 = h\<lparr>m_search_result := [], m_search_result_with_value := [],
                 m_vector_db_result_iter := 0, m_vector_db_result_with_value_iter := 0\<rparr>
      in
      if m_buffer h1 = [] \<or> m_limit h1 = 0 then (Some HA_ERR_END_OF_FILE, h1)
      else if dimension index < length (m_buffer h1) then (Some HA_EXIT_FAILURE, h1)
      else
        let h2 = h1\<lparr>m_buffer :=
                      m_buffer h1 @ replicate (dimension index - length (m_buffer h1)) 0\<rparr>;
            params = \<lparr>m_metric = h_metric h2, m_k = m_limit h2, m_nprobe = h_nprobe h2,
                      m_weight = 0, m_query_coordinate = []\<rparr>
        in
        (case virtual_knn_search_with_value index thd (m_buffer h2) params of
           Inr with_value \<Rightarrow> (None, h2\<lparr>m_search_result_with_value := with_value\<rparr>)
         | Inl rtn \<Rightarrow>
             if rtn = HA_ERR_UNSUPPORTED then
               (case virtual_knn_search index thd pk_index_cond sk_descr (m_buffer h2) params
                       (m_search_result h2) of
                  (rtn2, search_result) \<Rightarrow> (rtn2, h2\<lparr>m_search_result := search_result\<rparr>))
             else (Some rtn, h2)))"

text \<open>\<open>Rdb_vector_db_handler::knn_search_hybrid\<close>; \<open>m_limit * 5\<close> is a product of \<open>uint\<close>.\<close>

definition handler_knn_search_hybrid ::
  "Rdb_vector_db_handler \<Rightarrow> THD option \<Rightarrow> Rdb_vector_index
     \<Rightarrow> (bytes \<Rightarrow> bytes \<Rightarrow> error option) option \<Rightarrow> (bytes \<Rightarrow> bytes \<Rightarrow> bool) option
     \<Rightarrow> error option \<times> Rdb_vector_db_handler" where
  "handler_knn_search_hybrid h thd index sk_descr pk_index_cond =
     (let h1 = h\<lparr>m_search_result_with_value := [], m_vector_db_result_with_value_iter := 0\<rparr>
      in
      if m_buffer h1 = [] \<or> m_limit h1 = 0 then (Some HA_ERR_END_OF_FILE, h1)
      else if dimension index < length (m_buffer h1) then (Some HA_EXIT_FAILURE, h1)
      else
        let h2 = h1\<lparr>m_buffer :=
                      m_buffer h1 @ replicate (dimension index - length (m_buffer h1)) 0\<rparr>;
            params = \<lparr>m_metric = h_metric h2, m_k = m_limit h2 * 5, m_nprobe = h_nprobe h2,
                      m_weight = h_weight h2, m_query_coordinate = h_query_coordinate h2\<rparr>
        in
        (case virtual_knn_search_hybrid_with_value index thd (m_buffer h2) params of
           Inr with_value \<Rightarrow> (None, h2\<lparr>m_search_result_with_value := with_value\<rparr>)
         | Inl rtn \<Rightarrow> (Some rtn, h2)))"

section \<open>Quantities the properties speak of\<close>

text \<open>
  The matched rows of an LSM scan: the rows of non-empty value among those the
  iterator yields.
\<close>

definition matched_rows :: "Rdb_vector_index_lsm \<Rightarrow> real list \<Rightarrow> 32 word \<Rightarrow> 32 word \<Rightarrow> nat" where
  "matched_rows index query_vector k nprobe =
     length (filter (\<lambda>(key, val). val \<noteq> [])
               (rdb_tx_get_iterator_vector index query_vector k nprobe))"

text \<open>The same index over a store whose iterator yields no row of empty value.\<close>

definition drop_empty_rows :: "Rdb_vector_index_lsm \<Rightarrow> Rdb_vector_index_lsm" where
  "drop_empty_rows index =
     index\<lparr>rdb_tx_get_iterator_vector :=
             (\<lambda>query_vector k nprobe.
                filter (\<lambda>(key, val). val \<noteq> [])
                  (rdb_tx_get_iterator_vector index query_vector k nprobe))\<rparr>"

text \<open>The query buffer after \<open>m_buffer.resize(index->dimension(), 0.0)\<close>.\<close>

definition padded :: "real list \<Rightarrow> nat \<Rightarrow> real list" where
  "padded buffer n = buffer @ replicate (n - length buffer) 0"

section \<open>A small table for concrete runs\<close>

text \<open>
  A layout of nine columns: seven one-byte integers, a geometry column (type 255)
  at index 7 and the JSON vector column (type 245) at index 8, both with a
  one-byte length prefix; no TTL and no nullable column. A row holds a WKB point
  and a one-element vector. \<open>wkb_origin\<close> is the point (0, 0), \<open>wkb_antipode\<close> the
  point of longitude 180 and latitude 0.
\<close>

definition sample_fields :: "FieldInfo list" where
  "sample_fields =
     replicate 7 \<lparr>field_type = 1, is_nullable = False, length_bytes = 0, pack_length = 1\<rparr>
     @ [\<lparr>field_type = 255, is_nullable = False, length_bytes = 1, pack_length = 0\<rparr>,
        \<lparr>field_type = 245, is_nullable = False, length_bytes = 1, pack_length = 0\<rparr>]"

definition sample_config :: TableConfig where
  "sample_config = \<lparr>has_ttl = False, null_bytes_length = 0\<rparr>"

definition wkb_origin :: bytes where
  "wkb_origin = [0, 0, 0, 0, 1, 1, 0, 0, 0, 0, 0, 0, 0, 0, 0, 0, 0, 0, 0, 0, 0, 0, 0, 0, 0]"

definition wkb_antipode :: bytes where
  "wkb_antipode =
     [0, 0, 0, 0, 1, 1, 0, 0, 0, 0, 0, 0, 0, 0, 0x80, 0x66, 0x40, 0, 0, 0, 0, 0, 0, 0, 0]"

definition json_int16 :: "byte \<Rightarrow> bytes" where
  "json_int16 x = [0x02, 1, 0, 8, 0, 0x05, x, 0]"

definition sample_value :: "bytes \<Rightarrow> byte \<Rightarrow> bytes" where
  "sample_value wkb x = [0, 0, 0, 0, 0, 0, 0] @ [25] @ wkb @ [8] @ json_int16 x"

definition sample_rows :: "(bytes \<times> bytes) list" where
  "sample_rows =
     [([0x61], sample_value wkb_origin 3), ([0x62], sample_value wkb_origin 4), ([0x63], []),
      ([0x64], sample_value wkb_origin 5), ([0x65], sample_value wkb_origin 6),
      ([0x66], sample_value wkb_origin 7), ([0x67], sample_value wkb_antipode 1)]"

definition sample_lsm :: Rdb_vector_index_lsm where
  "sample_lsm =
     \<lparr>lsm_dimension = 1, get_table_info = Some (sample_fields, sample_config),
      rdb_tx_get_iterator_vector = (\<lambda>query_vector k nprobe. sample_rows)\<rparr>"

definition sample_params :: "32 word \<Rightarrow> Rdb_vector_search_params" where
  "sample_params k =
     \<lparr>m_metric = METRIC_L2, m_k = k, m_nprobe = 1, m_weight = 1, m_query_coordinate = wkb_origin\<rparr>"

definition sample_handler :: "32 word \<Rightarrow> Rdb_vector_db_handler" where
  "sample_handler limit =
     \<lparr>m_buffer = [0], m_search_type = FB_VECTOR_SEARCH_KNN_HYBRID, m_search_result = [],
      m_search_result_with_value = [], m_vector_db_result_iter = 0,
      m_vector_db_result_with_value_iter = 0, h_metric = METRIC_L2, m_limit = limit,
      h_nprobe = 1, h_weight = 1, h_query_coordinate = wkb_origin\<rparr>"

text \<open>
  A second table of the same layout and dimension 2, with one row whose vector is
  \<open>[3, 4]\<close>.
\<close>

definition json_pair :: bytes where
  "json_pair = [0x02, 2, 0, 11, 0, 0x05, 3, 0, 0x05, 4, 0]"

definition pair_value :: bytes where
  "pair_value = [0, 0, 0, 0, 0, 0, 0] @ [25] @ wkb_origin @ [11] @ json_pair"

definition pair_lsm :: Rdb_vector_index_lsm where
  "pair_lsm =
     \<lparr>lsm_dimension = 2, get_table_info = Some (sample_fields, sample_config),
      rdb_tx_get_iterator_vector = (\<lambda>query_vector k nprobe. [([0x61], pair_value)])\<rparr>"

definition pair_handler :: "real list \<Rightarrow> Rdb_vector_db_handler" where
  "pair_handler buffer =
     \<lparr>m_buffer = buffer, m_search_type = FB_VECTOR_SEARCH_KNN_FIRST, m_search_result = [],
      m_search_result_with_value = [], m_vector_db_result_iter = 0,
      m_vector_db_result_with_value_iter = 0, h_metric = METRIC_L2, m_limit = 1,
      h_nprobe = 1, h_weight = 0, h_query_coordinate = []\<rparr>"

text \<open>
  An IVF index of code size 4 with one list; the header tags are those of the
  storage engine (tag 2 with a header of 3 bytes, tag 3 with a header of 5). The
  sample distance of a query to stored codes is the first code byte.
\<close>

definition sample_unpack_header :: unpack_header where
  "sample_unpack_header =
     \<lparr>is_unpack_data_tag = (\<lambda>tag. tag = 0x02 \<or> tag = 0x03),
      get_unpack_header_size = (\<lambda>tag. if tag = 0x02 then 3 else 5)\<rparr>"

definition sample_ivf :: "(bytes \<times> bytes) list \<Rightarrow> Rdb_vector_index_ivf" where
  "sample_ivf store =
     \<lparr>ivf_dimension = 1, ivf_index_id = 7, ivf_code_size = 4, ivf_store = store,
      ivf_unpack_header = sample_unpack_header,
      quantizer_search = (\<lambda>query_vector nprobe. [0]),
      code_distance = (\<lambda>metric query_vector codes. real (le_nat (take 1 codes)))\<rparr>"

definition list_key :: "byte \<Rightarrow> bytes" where
  "list_key pk = write_inverted_list_key 7 0 @ [pk]"

definition good_store :: "(bytes \<times> bytes) list" where
  "good_store = [(list_key 0x61, [5, 0, 0, 0]), (list_key 0x62, [2, 0, 0, 0])]"

definition empty_value_store :: "(bytes \<times> bytes) list" where
  "empty_value_store = [(list_key 0x61, [])]"

definition short_value_store :: "(bytes \<times> bytes) list" where
  "short_value_store = [(list_key 0x61, [0x02, 0, 0])]"

definition always_true :: "bytes \<Rightarrow> bytes \<Rightarrow> bool" where
  "always_true sk sk_value = True"

definition unpack_ok :: "bytes \<Rightarrow> bytes \<Rightarrow> error option" where
  "unpack_ok sk sk_value = None"

section \<open>The row encoding\<close>

text \<open>
  The row encoding as the specification describes it, to compare the decoder
  with. In its data model a VARCHAR-like field has a length prefix of 1 or 2 bytes
  and a blob, JSON or geometry field one of 1 to 4 bytes; the decoder copies the
  latter into a \<open>size_t\<close>, so that any prefix of at most 8 bytes is read as it is
  written.
\<close>

definition is_variable :: "FieldInfo \<Rightarrow> bool" where
  "is_variable f =
     (field_type f = MYSQL_TYPE_VARCHAR \<or> field_type f = MYSQL_TYPE_BLOB
      \<or> field_type f = MYSQL_TYPE_JSON \<or> field_type f = MYSQL_TYPE_GEOMETRY)"

definition length_prefix_ok :: "FieldInfo \<Rightarrow> bool" where
  "length_prefix_ok f =
     ((field_type f = MYSQL_TYPE_VARCHAR \<longrightarrow> length_bytes f = 1 \<or> length_bytes f = 2)
      \<and> (is_variable f \<longrightarrow> length_bytes f \<le> 8))"

text \<open>
  The decoder takes the null bit of field \<open>i\<close> from the byte \<open>i div 8\<close> after the
  start of the null bitmap. The bitmap of the data model has
  \<open>\<lceil>nullable_fields / 8\<rceil>\<close> bytes, which need not reach that byte; that the read
  stays inside the bitmap is a condition of its own, which the data model does
  not give.
\<close>

definition null_bit_in_bitmap :: "TableConfig \<Rightarrow> nat \<Rightarrow> FieldInfo \<Rightarrow> bool" where
  "null_bit_in_bitmap table_config i f =
     (is_nullable f \<and> 0 < null_bytes_length table_config
        \<longrightarrow> i div 8 < null_bytes_length table_config)"

definition decodable_field :: "TableConfig \<Rightarrow> nat \<Rightarrow> FieldInfo \<Rightarrow> bool" where
  "decodable_field table_config i f =
     (length_prefix_ok f \<and> null_bit_in_bitmap table_config i f)"

fun decodable_fields :: "TableConfig \<Rightarrow> nat \<Rightarrow> FieldInfo list \<Rightarrow> bool" where
  "decodable_fields table_config i [] = True"
| "decodable_fields table_config i (f # fs) =
     (decodable_field table_config i f \<and> decodable_fields table_config (Suc i) fs)"

definition decodable_layout :: "TableConfig \<Rightarrow> FieldInfo list \<Rightarrow> bool" where
  "decodable_layout table_config field_info_list =
     decodable_fields table_config 0 field_info_list"

text \<open>
  Bit \<open>i\<close> of the null bitmap covers the \<open>i\<close>-th field if it is declared nullable.
\<close>

definition null_bit :: "bytes \<Rightarrow> nat \<Rightarrow> FieldInfo \<Rightarrow> bool" where
  "null_bit bitmap i f =
     (is_nullable f \<and> i div 8 < length bitmap \<and> bit (bitmap ! (i div 8)) (i mod 8))"

text \<open>
  One field that is present at the head of the payload: a little-endian length
  prefix of \<open>length_bytes\<close> bytes and then the payload, or \<open>pack_length\<close> bytes. The
  result is the field's slice and the payload behind it, or \<open>None\<close> when the prefix
  or the payload extends past the end.
\<close>

definition field_slice :: "FieldInfo \<Rightarrow> bytes \<Rightarrow> (bytes \<times> bytes) option" where
  "field_slice f payload =
     (if is_variable f then
        (if length payload < length_bytes f then None
         else
           let len = le_nat (take (length_bytes f) payload);
               body = drop (length_bytes f) payload
           in if length body < len then None else Some (take len body, drop len body))
      else
        (if length payload < pack_length f then None
         else Some (take (pack_length f) payload, drop (pack_length f) payload)))"

text \<open>
  The fields in declared order, from field \<open>i\<close> on: a field whose null bit is set
  is absent from the payload and its slice is empty.
\<close>

fun row_fields :: "bytes \<Rightarrow> nat \<Rightarrow> FieldInfo list \<Rightarrow> bytes \<Rightarrow> bytes list option" where
  "row_fields bitmap i [] payload = Some []"
| "row_fields bitmap i (f # fs) payload =
     (if null_bit bitmap i f then map_option ((#) []) (row_fields bitmap (Suc i) fs payload)
      else
        (case field_slice f payload of
           None \<Rightarrow> None
         | Some (fld, payload') \<Rightarrow>
             map_option ((#) fld) (row_fields bitmap (Suc i) fs payload')))"

text \<open>
  A row value: an optional 8-byte TTL, the null bitmap, then the fields. \<open>None\<close>
  when the value is too short for one of them.
\<close>

definition null_bitmap :: "TableConfig \<Rightarrow> bytes \<Rightarrow> bytes" where
  "null_bitmap table_config val =
     take (null_bytes_length table_config) (if has_ttl table_config then drop 8 val else val)"

definition row_slices :: "TableConfig \<Rightarrow> FieldInfo list \<Rightarrow> bytes \<Rightarrow> bytes list option" where
  "row_slices table_config field_info_list val =
     (if has_ttl table_config \<and> length val < 8 then None
      else
        let after_ttl = (if has_ttl table_config then drop 8 val else val) in
        if length after_ttl < null_bytes_length table_config then None
        else row_fields (null_bitmap table_config val) 0 field_info_list
               (drop (null_bytes_length table_config) after_ttl))"

text \<open>The number of fields the decoder parses: those up to the largest requested index.\<close>

definition parsed_fields :: "nat list \<Rightarrow> nat" where
  "parsed_fields field_indexs = (if field_indexs = [] then 0 else Suc (Max (set field_indexs)))"

text \<open>
  A layout with a TTL and a null bitmap of one byte: a fixed field of two bytes, a
  nullable VARCHAR, a nullable blob with a two-byte prefix, a nullable one-byte
  field and a last fixed field of four bytes. In \<open>ttl_row\<close> the blob is null, and the
  value ends after the fourth field.
\<close>

definition ttl_config :: TableConfig where
  "ttl_config = \<lparr>has_ttl = True, null_bytes_length = 1\<rparr>"

definition ttl_fields :: "FieldInfo list" where
  "ttl_fields =
     [\<lparr>field_type = 2, is_nullable = False, length_bytes = 0, pack_length = 2\<rparr>,
      \<lparr>field_type = 15, is_nullable = True, length_bytes = 1, pack_length = 0\<rparr>,
      \<lparr>field_type = 252, is_nullable = True, length_bytes = 2, pack_length = 0\<rparr>,
      \<lparr>field_type = 1, is_nullable = True, length_bytes = 0, pack_length = 1\<rparr>,
      \<lparr>field_type = 3, is_nullable = False, length_bytes = 0, pack_length = 4\<rparr>]"

definition ttl_row :: bytes where
  "ttl_row = [1, 2, 3, 4, 5, 6, 7, 8] @ [0x04] @ [0xAA, 0xBB] @ [2, 0x61, 0x62] @ [0x07]"

text \<open>
  A layout of nine columns in which only the last one is nullable, so that the
  null bitmap has one byte: eight one-byte integers and a nullable VARCHAR. Both
  rows hold the string \<open>ab\<close> in the last column, and no null bit is set; they
  differ in the first column, which holds 1 in \<open>late_row\<close> and 2 in
  \<open>late_row_even\<close>.
\<close>

definition late_config :: TableConfig where
  "late_config = \<lparr>has_ttl = False, null_bytes_length = 1\<rparr>"

definition late_fields :: "FieldInfo list" where
  "late_fields =
     replicate 8 \<lparr>field_type = 1, is_nullable = False, length_bytes = 0, pack_length = 1\<rparr>
     @ [\<lparr>field_type = 15, is_nullable = True, length_bytes = 1, pack_length = 0\<rparr>]"

definition late_row :: bytes where
  "late_row = [0x00] @ [1, 0, 0, 0, 0, 0, 0, 0] @ [2, 0x61, 0x62]"

definition late_row_even :: bytes where
  "late_row_even = [0x00] @ [2, 0, 0, 0, 0, 0, 0, 0] @ [2, 0x61, 0x62]"

section \<open>Evaluation of the concrete runs\<close>

lemma decode_vec_near_3:
  "DecodeFieldFromValue sample_config sample_fields [8] (sample_value wkb_origin 3)
   = Inr [json_int16 3]"
  by code_simp

lemma decode_both_near_3:
  "DecodeFieldFromValue sample_config sample_fields [7, 8] (sample_value wkb_origin 3)
   = Inr [wkb_origin, json_int16 3]"
  by code_simp

lemma extract_3: "ExtractVectorFromJson float_type (json_int16 3) = Inr [3]"
  by code_simp

lemma L2sqr_3: "fvec_L2sqr [0] [3] (Suc 0) = Inr 9"
  by (simp add: fvec_L2sqr_def)

lemma decode_vec_near_4:
  "DecodeFieldFromValue sample_config sample_fields [8] (sample_value wkb_origin 4)
   = Inr [json_int16 4]"
  by code_simp

lemma decode_both_near_4:
  "DecodeFieldFromValue sample_config sample_fields [7, 8] (sample_value wkb_origin 4)
   = Inr [wkb_origin, json_int16 4]"
  by code_simp

lemma extract_4: "ExtractVectorFromJson float_type (json_int16 4) = Inr [4]"
  by code_simp

lemma L2sqr_4: "fvec_L2sqr [0] [4] (Suc 0) = Inr 16"
  by (simp add: fvec_L2sqr_def)

lemma decode_vec_near_5:
  "DecodeFieldFromValue sample_config sample_fields [8] (sample_value wkb_origin 5)
   = Inr [json_int16 5]"
  by code_simp

lemma decode_both_near_5:
  "DecodeFieldFromValue sample_config sample_fields [7, 8] (sample_value wkb_origin 5)
   = Inr [wkb_origin, json_int16 5]"
  by code_simp

lemma extract_5: "ExtractVectorFromJson float_type (json_int16 5) = Inr [5]"
  by code_simp

lemma L2sqr_5: "fvec_L2sqr [0] [5] (Suc 0) = Inr 25"
  by (simp add: fvec_L2sqr_def)

lemma decode_vec_near_6:
  "DecodeFieldFromValue sample_config sample_fields [8] (sample_value wkb_origin 6)
   = Inr [json_int16 6]"
  by code_simp

lemma decode_both_near_6:
  "DecodeFieldFromValue sample_config sample_fields [7, 8] (sample_value wkb_origin 6)
   = Inr [wkb_origin, json_int16 6]"
  by code_simp

lemma extract_6: "ExtractVectorFromJson float_type (json_int16 6) = Inr [6]"
  by code_simp

lemma L2sqr_6: "fvec_L2sqr [0] [6] (Suc 0) = Inr 36"
  by (simp add: fvec_L2sqr_def)

lemma decode_vec_near_7:
  "DecodeFieldFromValue sample_config sample_fields [8] (sample_value wkb_origin 7)
   = Inr [json_int16 7]"
  by code_simp

lemma decode_both_near_7:
  "DecodeFieldFromValue sample_config sample_fields [7, 8] (sample_value wkb_origin 7)
   = Inr [wkb_origin, json_int16 7]"
  by code_simp

lemma extract_7: "ExtractVectorFromJson float_type (json_int16 7) = Inr [7]"
  by code_simp

lemma L2sqr_7: "fvec_L2sqr [0] [7] (Suc 0) = Inr 49"
  by (simp add: fvec_L2sqr_def)

lemma decode_vec_far:
  "DecodeFieldFromValue sample_config sample_fields [8] (sample_value wkb_antipode 1)
   = Inr [json_int16 1]"
  by code_simp

lemma decode_both_far:
  "DecodeFieldFromValue sample_config sample_fields [7, 8] (sample_value wkb_antipode 1)
   = Inr [wkb_antipode, json_int16 1]"
  by code_simp

lemma extract_1: "ExtractVectorFromJson float_type (json_int16 1) = Inr [1]"
  by code_simp

lemma L2sqr_1: "fvec_L2sqr [0] [1] (Suc 0) = Inr 1"
  by (simp add: fvec_L2sqr_def)

lemma sample_fields_to_extract: "field_indexes_to_extract sample_fields = [7, 8]"
  by code_simp

lemma sample_vector_field_index: "vector_field_index sample_fields = Some 1"
  by code_simp

lemma sample_spatial_field_index: "spatial_field_index sample_fields = Some 0"
  by code_simp

lemma read_origin_lon: "read_double wkb_origin 9 = Inr 0"
  by (simp add: read_double_def read_le_def wkb_origin_def double_value_def)

lemma read_origin_lat: "read_double wkb_origin 17 = Inr 0"
  by (simp add: read_double_def read_le_def wkb_origin_def double_value_def)

lemma read_antipode_lon: "read_double wkb_antipode 9 = Inr 180"
  by (simp add: read_double_def read_le_def wkb_antipode_def double_value_def)

lemma read_antipode_lat: "read_double wkb_antipode 17 = Inr 0"
  by (simp add: read_double_def read_le_def wkb_antipode_def double_value_def)

lemma st_distance_same_point: "st_distance_simple 0 0 0 0 = 0"
  by (simp add: st_distance_simple_def deg2rad_def atan2_def)

lemma st_distance_antipode: "st_distance_simple 0 0 180 0 = 6371008.8 * pi"
  by (simp add: st_distance_simple_def deg2rad_def atan2_def)

lemma hybrid_distances_near_3:
  "hybrid_distances sample_config sample_fields [0] (0, 0) (sample_value wkb_origin 3)
   = Inr (9, 0)"
  by (simp add: hybrid_distances_def sample_fields_to_extract decode_both_near_3
        sample_vector_field_index sample_spatial_field_index extract_3 read_origin_lon
        read_origin_lat st_distance_same_point L2sqr_3)

lemma hybrid_distances_near_4:
  "hybrid_distances sample_config sample_fields [0] (0, 0) (sample_value wkb_origin 4)
   = Inr (16, 0)"
  by (simp add: hybrid_distances_def sample_fields_to_extract decode_both_near_4
        sample_vector_field_index sample_spatial_field_index extract_4 read_origin_lon
        read_origin_lat st_distance_same_point L2sqr_4)

lemma hybrid_distances_near_5:
  "hybrid_distances sample_config sample_fields [0] (0, 0) (sample_value wkb_origin 5)
   = Inr (25, 0)"
  by (simp add: hybrid_distances_def sample_fields_to_extract decode_both_near_5
        sample_vector_field_index sample_spatial_field_index extract_5 read_origin_lon
        read_origin_lat st_distance_same_point L2sqr_5)

lemma hybrid_distances_near_6:
  "hybrid_distances sample_config sample_fields [0] (0, 0) (sample_value wkb_origin 6)
   = Inr (36, 0)"
  by (simp add: hybrid_distances_def sample_fields_to_extract decode_both_near_6
        sample_vector_field_index sample_spatial_field_index extract_6 read_origin_lon
        read_origin_lat st_distance_same_point L2sqr_6)

lemma hybrid_distances_near_7:
  "hybrid_distances sample_config sample_fields [0] (0, 0) (sample_value wkb_origin 7)
   = Inr (49, 0)"
  by (simp add: hybrid_distances_def sample_fields_to_extract decode_both_near_7
        sample_vector_field_index sample_spatial_field_index extract_7 read_origin_lon
        read_origin_lat st_distance_same_point L2sqr_7)

lemma hybrid_distances_far:
  "hybrid_distances sample_config sample_fields [0] (0, 0) (sample_value wkb_antipode 1)
   = Inr (1, 6371008.8 * pi)"
  by (simp add: hybrid_distances_def sample_fields_to_extract decode_both_far
        sample_vector_field_index sample_spatial_field_index extract_1 read_antipode_lon
        read_antipode_lat st_distance_antipode L2sqr_1)

lemma sample_value_nonempty: "sample_value wkb x \<noteq> []"
  by (simp add: sample_value_def)

lemmas sample_decode =
  decode_vec_near_3 decode_vec_near_4 decode_vec_near_5 decode_vec_near_6 decode_vec_near_7
  decode_vec_far extract_3 extract_4 extract_5 extract_6 extract_7 extract_1
  L2sqr_3 L2sqr_4 L2sqr_5 L2sqr_6 L2sqr_7 L2sqr_1

lemmas sample_hybrid =
  hybrid_distances_near_3 hybrid_distances_near_4 hybrid_distances_near_5
  hybrid_distances_near_6 hybrid_distances_near_7 hybrid_distances_far

lemma scan_sample:
  "lsm_scan_loop sample_config sample_fields [0] 2 sample_rows 0 []
   = Inr (7, [(1, ([0x67], sample_value wkb_antipode 1)), (9, ([0x61], sample_value wkb_origin 3))])"
  by (simp add: sample_rows_def sample_value_nonempty sample_decode heap_step_def pq_push_def
        pq_top_def pq_pop_def)

lemma knn_sample_k2:
  "m_k params = 2 \<Longrightarrow> knn_search_with_value sample_lsm thd [0] params
   = Inr [([0x67], (1, sample_value wkb_antipode 1)), ([0x61], (9, sample_value wkb_origin 3))]"
  by (simp add: knn_search_with_value_def sample_lsm_def scan_sample
        heap_to_result_def pq_top_def pq_pop_def)

lemma knn_sample:
  "knn_search_with_value sample_lsm thd [0] (sample_params 2)
   = Inr [([0x67], (1, sample_value wkb_antipode 1)), ([0x61], (9, sample_value wkb_origin 3))]"
  by (rule knn_sample_k2) (simp add: sample_params_def)

lemma hybrid_scan_sample:
  "lsm_hybrid_loop sample_config sample_fields [0] (0, 0) 1 5 sample_rows 0 []
   = Inr (7, [(1, ([0x67], sample_value wkb_antipode 1)), (9, ([0x61], sample_value wkb_origin 3)),
              (16, ([0x62], sample_value wkb_origin 4)), (25, ([0x64], sample_value wkb_origin 5)),
              (36, ([0x65], sample_value wkb_origin 6))])"
  by (simp add: sample_rows_def sample_value_nonempty sample_hybrid heap_step_def pq_push_def
        pq_top_def pq_pop_def)

lemma hybrid_sample:
  "knn_search_hybrid_with_value sample_lsm thd [0] (sample_params 5)
   = Inr [([0x67], (1, sample_value wkb_antipode 1)), ([0x61], (9, sample_value wkb_origin 3)),
          ([0x62], (16, sample_value wkb_origin 4)), ([0x64], (25, sample_value wkb_origin 5)),
          ([0x65], (36, sample_value wkb_origin 6))]"
  by (simp add: knn_search_hybrid_with_value_def sample_lsm_def sample_params_def
        read_origin_lon read_origin_lat hybrid_scan_sample heap_to_result_def pq_top_def pq_pop_def)

section \<open>The heap and the order of the results\<close>









text \<open>Draining pops the largest first; reversed, the result lists the heap in ascending order.\<close>

lemma drain_heap_eq:
  "drain_heap h acc = acc @ rev (map (\<lambda>e. (fst (snd e), (fst e, snd (snd e)))) h)"
proof (induction h acc rule: drain_heap.induct)
  case (1 h acc)
  show ?case
  proof (cases "h = []")
    case True
    then show ?thesis by simp
  next
    case False
    then have h: "h = butlast h @ [last h]" by simp
    have "drain_heap h acc
          = drain_heap (pq_pop h) (acc @ [(fst (snd (pq_top h)), (fst (pq_top h), snd (snd (pq_top h))))])"
      using False by (subst drain_heap.simps) (simp add: Let_def)
    also have "\<dots> = (acc @ [(fst (snd (pq_top h)), (fst (pq_top h), snd (snd (pq_top h))))])
                     @ rev (map (\<lambda>e. (fst (snd e), (fst e, snd (snd e)))) (pq_pop h))"
      using "1.IH" [OF False refl] by simp
    also have "\<dots> = acc @ rev (map (\<lambda>e. (fst (snd e), (fst e, snd (snd e)))) (butlast h @ [last h]))"
      by (simp add: pq_pop_def pq_top_def)
    finally show ?thesis using h by simp
  qed
qed

lemma heap_to_result_eq:
  "heap_to_result h = map (\<lambda>e. (fst (snd e), (fst e, snd (snd e)))) h"
  by (simp add: heap_to_result_def drain_heap_eq del: drain_heap.simps)




section \<open>The size of the results\<close>












section \<open>Rows of empty value\<close>

lemma lsm_scan_loop_count:
  "lsm_scan_loop tc fil q k rows ks h = Inr (ks', h') \<Longrightarrow> ks' = ks + int (length rows)"
proof (induction rows arbitrary: ks h)
  case Nil
  then show ?case by simp
next
  case (Cons row rows)
  obtain key val where row: "row = (key, val)" by (cases row)
  from Cons.prems row obtain h1 where "lsm_scan_loop tc fil q k rows (ks + 1) h1 = Inr (ks', h')"
    by (auto split: sum.splits if_splits)
  from Cons.IH [OF this] show ?case by simp
qed

lemma lsm_hybrid_loop_count:
  "lsm_hybrid_loop tc fil q qc w k rows ks h = Inr (ks', h') \<Longrightarrow> ks' = ks + int (length rows)"
proof (induction rows arbitrary: ks h)
  case Nil
  then show ?case by simp
next
  case (Cons row rows)
  obtain key val where row: "row = (key, val)" by (cases row)
  from Cons.prems row obtain h1 where
    "lsm_hybrid_loop tc fil q qc w k rows (ks + 1) h1 = Inr (ks', h')"
    by (auto split: sum.splits if_splits prod.splits)
  from Cons.IH [OF this] show ?case by simp
qed

text \<open>The heap a scan builds does not depend on the rows of empty value.\<close>

lemma lsm_scan_loop_filter:
  "map_sum id snd (lsm_scan_loop tc fil q k (filter (\<lambda>(key, val). val \<noteq> []) rows) ks2 h)
   = map_sum id snd (lsm_scan_loop tc fil q k rows ks h)"
proof (induction rows arbitrary: ks ks2 h)
  case Nil
  then show ?case by simp
next
  case (Cons row rows)
  obtain key val where row: "row = (key, val)" by (cases row)
  show ?case
  proof (cases "val = []")
    case True
    with Cons.IH [of ks2 h "ks + 1"] row show ?thesis by simp
  next
    case False
    with row Cons.IH show ?thesis by (simp split: sum.splits)
  qed
qed

lemma lsm_hybrid_loop_filter:
  "map_sum id snd (lsm_hybrid_loop tc fil q qc w k (filter (\<lambda>(key, val). val \<noteq> []) rows) ks2 h)
   = map_sum id snd (lsm_hybrid_loop tc fil q qc w k rows ks h)"
proof (induction rows arbitrary: ks ks2 h)
  case Nil
  then show ?case by simp
next
  case (Cons row rows)
  obtain key val where row: "row = (key, val)" by (cases row)
  show ?case
  proof (cases "val = []")
    case True
    with Cons.IH [of ks2 h "ks + 1"] row show ?thesis by simp
  next
    case False
    with row Cons.IH show ?thesis by (simp split: sum.splits prod.splits)
  qed
qed

lemma finish_scan:
  "(case r of Inl e \<Rightarrow> Inl e | Inr (keys_scanned, top_k_heap) \<Rightarrow> Inr (heap_to_result top_k_heap))
   = map_sum id heap_to_result (map_sum id snd r)"
  by (cases r) auto

lemma knn_search_with_value_drop_empty:
  "knn_search_with_value (drop_empty_rows index) thd q params
   = knn_search_with_value index thd q params"
  by (simp add: knn_search_with_value_def drop_empty_rows_def finish_scan lsm_scan_loop_filter [where ks = 0 and ?ks2.0 = 0]
        split: option.splits)

lemma index_scan_with_value_drop_empty:
  "index_scan_with_value (drop_empty_rows index) thd q nprobe
   = index_scan_with_value index thd q nprobe"
  by (simp add: index_scan_with_value_def drop_empty_rows_def finish_scan lsm_scan_loop_filter [where ks = 0 and ?ks2.0 = 0]
        split: option.splits)

lemma knn_search_hybrid_with_value_drop_empty:
  "knn_search_hybrid_with_value (drop_empty_rows index) thd q params
   = knn_search_hybrid_with_value index thd q params"
  by (simp add: knn_search_hybrid_with_value_def drop_empty_rows_def finish_scan
        lsm_hybrid_loop_filter [where ks = 0 and ?ks2.0 = 0] split: option.splits sum.splits)

lemma heap_step_values:
  "heap_step k h s d (key, val) = Inr h' \<Longrightarrow> val \<noteq> [] \<Longrightarrow> \<forall>e\<in>set h. snd (snd e) \<noteq> []
     \<Longrightarrow> \<forall>e\<in>set h'. snd (snd e) \<noteq> []"
  by (auto simp: heap_step_def pq_push_def pq_pop_def set_insort_key split: if_splits
        dest!: in_set_butlastD)

lemma lsm_scan_loop_values:
  "lsm_scan_loop tc fil q k rows ks h = Inr (ks', h') \<Longrightarrow> \<forall>e\<in>set h. snd (snd e) \<noteq> []
     \<Longrightarrow> \<forall>e\<in>set h'. snd (snd e) \<noteq> []"
proof (induction rows arbitrary: ks h)
  case Nil
  then show ?case by simp
next
  case (Cons row rows)
  obtain key val where row: "row = (key, val)" by (cases row)
  show ?case
  proof (cases "val = []")
    case True
    with Cons row show ?thesis by simp
  next
    case False
    with Cons.prems row obtain d h1 where
      step: "heap_step k h d d (key, val) = Inr h1" and
      rest: "lsm_scan_loop tc fil q k rows (ks + 1) h1 = Inr (ks', h')"
      by (auto split: sum.splits)
    from Cons.IH [OF rest heap_step_values [OF step False Cons.prems(2)]] show ?thesis .
  qed
qed

lemma lsm_hybrid_loop_values:
  "lsm_hybrid_loop tc fil q qc w k rows ks h = Inr (ks', h') \<Longrightarrow> \<forall>e\<in>set h. snd (snd e) \<noteq> []
     \<Longrightarrow> \<forall>e\<in>set h'. snd (snd e) \<noteq> []"
proof (induction rows arbitrary: ks h)
  case Nil
  then show ?case by simp
next
  case (Cons row rows)
  obtain key val where row: "row = (key, val)" by (cases row)
  show ?case
  proof (cases "val = []")
    case True
    with Cons row show ?thesis by simp
  next
    case False
    with Cons.prems row obtain d ds h1 where
      step: "heap_step k h (d + w * ds) d (key, val) = Inr h1" and
      rest: "lsm_hybrid_loop tc fil q qc w k rows (ks + 1) h1 = Inr (ks', h')"
      by (auto split: sum.splits prod.splits)
    from Cons.IH [OF rest heap_step_values [OF step False Cons.prems(2)]] show ?thesis .
  qed
qed

lemma heap_to_result_values:
  assumes "\<forall>e\<in>set h. snd (snd e) \<noteq> []" and "r \<in> set (heap_to_result h)"
  shows "snd (snd r) \<noteq> []"
  using assms by (auto simp: heap_to_result_eq)

lemma knn_search_with_value_values:
  assumes "knn_search_with_value index thd q params = Inr result"
  shows "\<forall>r\<in>set result. snd (snd r) \<noteq> []"
proof -
  from assms obtain ks h fil tc where
    l: "lsm_scan_loop tc fil q (unat (m_k params))
       (rdb_tx_get_iterator_vector index q (m_k params) (m_nprobe params)) 0 [] = Inr (ks, h)"
    and r: "result = heap_to_result h"
    by (auto simp: knn_search_with_value_def Let_def split: option.splits sum.splits)
  have "\<forall>e\<in>set h. snd (snd e) \<noteq> []" using lsm_scan_loop_values [OF l] by simp
  with r show ?thesis using heap_to_result_values by blast
qed

lemma index_scan_with_value_values:
  assumes "index_scan_with_value index thd q nprobe = Inr result"
  shows "\<forall>r\<in>set result. snd (snd r) \<noteq> []"
proof -
  from assms obtain ks h fil tc where
    l: "lsm_scan_loop tc fil q 100 (rdb_tx_get_iterator_vector index q 500 nprobe) 0 []
        = Inr (ks, h)"
    and r: "result = heap_to_result h"
    by (auto simp: index_scan_with_value_def Let_def split: option.splits sum.splits)
  have "\<forall>e\<in>set h. snd (snd e) \<noteq> []" using lsm_scan_loop_values [OF l] by simp
  with r show ?thesis using heap_to_result_values by blast
qed

lemma knn_search_hybrid_with_value_values:
  assumes "knn_search_hybrid_with_value index thd q params = Inr result"
  shows "\<forall>r\<in>set result. snd (snd r) \<noteq> []"
proof -
  from assms obtain ks h fil tc qc where
    l: "lsm_hybrid_loop tc fil q qc (m_weight params) (unat (m_k params))
       (rdb_tx_get_iterator_vector index q (m_k params) (m_nprobe params)) 0 [] = Inr (ks, h)"
    and r: "result = heap_to_result h"
    by (auto simp: knn_search_hybrid_with_value_def Let_def split: option.splits sum.splits)
  have "\<forall>e\<in>set h. snd (snd e) \<noteq> []" using lsm_hybrid_loop_values [OF l] by simp
  with r show ?thesis using heap_to_result_values by blast
qed

text \<open>
  C10. In each of the three LSM scans a yielded row whose value is empty is
  skipped: the loop over it only counts it (the heap is left as it was; the row is
  neither decoded nor scored), the outcome of the scan is that of the scan over the
  store without the rows of empty value, no row of the result has an empty value,
  and \<open>keys_scanned\<close> still counts every yielded row.
\<close>

theorem empty_value_rows_skipped:
  "lsm_scan_loop tc fil q k ((key, []) # rows) ks h = lsm_scan_loop tc fil q k rows (ks + 1) h
   \<and> lsm_hybrid_loop tc fil q qc w k ((key, []) # rows) ks h
       = lsm_hybrid_loop tc fil q qc w k rows (ks + 1) h
   \<and> knn_search_with_value index thd q params
       = knn_search_with_value (drop_empty_rows index) thd q params
   \<and> knn_search_hybrid_with_value index thd q params
       = knn_search_hybrid_with_value (drop_empty_rows index) thd q params
   \<and> index_scan_with_value index thd q nprobe
       = index_scan_with_value (drop_empty_rows index) thd q nprobe
   \<and> (knn_search_with_value index thd q params = Inr result
        \<longrightarrow> (\<forall>r\<in>set result. snd (snd r) \<noteq> []))
   \<and> (knn_search_hybrid_with_value index thd q params = Inr result
        \<longrightarrow> (\<forall>r\<in>set result. snd (snd r) \<noteq> []))
   \<and> (index_scan_with_value index thd q nprobe = Inr result
        \<longrightarrow> (\<forall>r\<in>set result. snd (snd r) \<noteq> []))
   \<and> (lsm_scan_loop tc fil q k rows ks h = Inr (ks', h') \<longrightarrow> ks' = ks + int (length rows))
   \<and> (lsm_hybrid_loop tc fil q qc w k rows ks h = Inr (ks', h')
        \<longrightarrow> ks' = ks + int (length rows))"
  using knn_search_with_value_drop_empty [of index thd q params]
    knn_search_hybrid_with_value_drop_empty [of index thd q params]
    index_scan_with_value_drop_empty [of index thd q nprobe]
    knn_search_with_value_values [of index thd q params result]
    knn_search_hybrid_with_value_values [of index thd q params result]
    index_scan_with_value_values [of index thd q nprobe result]
    lsm_scan_loop_count [of tc fil q k rows ks h ks' h']
    lsm_hybrid_loop_count [of tc fil q qc w k rows ks h ks' h']
  by simp

theorem empty_value_rows_skipped_witness:
  "sample_rows ! 2 = ([0x63], [])
   \<and> lsm_scan_loop sample_config sample_fields [0] 2 sample_rows 0 []
       = Inr (7, [(1, ([0x67], sample_value wkb_antipode 1)),
                  (9, ([0x61], sample_value wkb_origin 3))])
   \<and> (7 :: int) = 0 + int (length sample_rows)
   \<and> knn_search_with_value (drop_empty_rows sample_lsm) None [0] (sample_params 2)
       = Inr [([0x67], (1, sample_value wkb_antipode 1)), ([0x61], (9, sample_value wkb_origin 3))]"
proof (intro conjI)
  show "sample_rows ! 2 = ([0x63], [])" by (simp add: sample_rows_def)
  show e: "lsm_scan_loop sample_config sample_fields [0] 2 sample_rows 0 []
       = Inr (7, [(1, ([0x67], sample_value wkb_antipode 1)),
                  (9, ([0x61], sample_value wkb_origin 3))])"
    by (rule scan_sample)
  show "(7 :: int) = 0 + int (length sample_rows)"
    using empty_value_rows_skipped [THEN conjunct2, THEN conjunct2, THEN conjunct2,
        THEN conjunct2, THEN conjunct2, THEN conjunct2, THEN conjunct2, THEN conjunct2,
        THEN conjunct1, rule_format, OF e] .
  show "knn_search_with_value (drop_empty_rows sample_lsm) None [0] (sample_params 2)
       = Inr [([0x67], (1, sample_value wkb_antipode 1)), ([0x61], (9, sample_value wkb_origin 3))]"
    using empty_value_rows_skipped [THEN conjunct2, THEN conjunct2, THEN conjunct1,
        of sample_lsm None "[0]" "sample_params 2"] knn_sample [of None]
    by simp
qed

section \<open>The inverted-list key and the iterator\<close>

lemma be_bytes_4:
  "be_bytes 4 v
   = [word_of_nat (v div 16777216), word_of_nat (v div 65536), word_of_nat (v div 256),
      word_of_nat v]"
proof -
  have "be_bytes (Suc (Suc (Suc (Suc 0)))) v
        = [word_of_nat (v div 16777216), word_of_nat (v div 65536), word_of_nat (v div 256),
           word_of_nat v]"
    by simp
  moreover have "(4::nat) = Suc (Suc (Suc (Suc 0)))" by simp
  ultimately show ?thesis by (simp only:)
qed

lemma be_bytes_8:
  "be_bytes 8 v
   = [word_of_nat (v div 72057594037927936), word_of_nat (v div 281474976710656),
      word_of_nat (v div 1099511627776), word_of_nat (v div 4294967296),
      word_of_nat (v div 16777216), word_of_nat (v div 65536), word_of_nat (v div 256),
      word_of_nat v]"
proof -
  have "be_bytes (Suc (Suc (Suc (Suc (Suc (Suc (Suc (Suc 0)))))))) v
        = [word_of_nat (v div 72057594037927936), word_of_nat (v div 281474976710656),
           word_of_nat (v div 1099511627776), word_of_nat (v div 4294967296),
           word_of_nat (v div 16777216), word_of_nat (v div 65536), word_of_nat (v div 256),
           word_of_nat v]"
    by simp
  moreover have "(8::nat) = Suc (Suc (Suc (Suc (Suc (Suc (Suc (Suc 0)))))))" by simp
  ultimately show ?thesis by (simp only:)
qed

lemma key_7_0: "write_inverted_list_key 7 0 = [0, 0, 0, 7, 0, 0, 0, 0, 0, 0, 0, 0]"
  by (simp add: write_inverted_list_key_def be_bytes_4 be_bytes_8)

lemma key_7_1: "write_inverted_list_key 7 1 = [0, 0, 0, 7, 0, 0, 0, 0, 0, 0, 0, 1]"
  by (simp add: write_inverted_list_key_def be_bytes_4 be_bytes_8)

lemma list_key_bytes: "list_key pk = [0, 0, 0, 7, 0, 0, 0, 0, 0, 0, 0, 0, pk]"
  by (simp add: list_key_def key_7_0)

lemma new_iterator_one:
  "new_iterator [(list_key pk, v)] 7 4 0
   = \<lparr>m_index_id = 7, m_list_id = 0, m_code_size = 4, m_iterator = [(list_key pk, v)]\<rparr>"
  by (simp add: new_iterator_def list_key_bytes key_7_0 key_7_1)

lemma new_iterator_two:
  "new_iterator [(list_key pk, v), (list_key pk2, v2)] 7 4 0
   = \<lparr>m_index_id = 7, m_list_id = 0, m_code_size = 4,
      m_iterator = [(list_key pk, v), (list_key pk2, v2)]\<rparr>"
  by (simp add: new_iterator_def list_key_bytes key_7_0 key_7_1)

lemma new_iterator_bare_key:
  "new_iterator [(write_inverted_list_key 7 0, v)] 7 4 0
   = \<lparr>m_index_id = 7, m_list_id = 0, m_code_size = 4,
      m_iterator = [(write_inverted_list_key 7 0, v)]\<rparr>"
  by (simp add: new_iterator_def key_7_0 key_7_1)

lemma read_list_key: "read_inverted_list_key (list_key pk) 7 0 = Inr [pk]"
  by (simp add: list_key_bytes read_inverted_list_key_def be_nat_def)

lemma unat_minus_1_64: "unat (- 1 :: 64 word) = 18446744073709551615"
  by (simp add: unsigned_minus_1_eq_mask mask_eq_exp_minus_1)

lemmas ivf_eval =
  unat_minus_1_64 always_true_def unpack_ok_def ivf_knn_search_def faiss_search_def
  sample_ivf_def new_context_def is_available_def get_key_and_value_def get_key_and_codes_def
  get_id_and_codes_def read_list_key on_iterator_end_def on_iterator_record_def add_key_def
  iterator_next_def faiss_heap_step_def pq_push_def pq_top_def pq_pop_def
  sample_unpack_header_def string_max_size_def Let_def scan_codes.simps
  is_available_loop.simps new_iterator_one new_iterator_two

lemma ivf_empty_value_with_predicate:
  "ivf_knn_search (sample_ivf empty_value_store) None (Some always_true) (Some unpack_ok) [0]
     (sample_params 2) [] = (Some UNDEFINED_BEHAVIOUR, [])"
  by (simp add: ivf_eval empty_value_store_def sample_params_def)

lemma ivf_short_value_with_predicate:
  "ivf_knn_search (sample_ivf short_value_store) None (Some always_true) (Some unpack_ok) [0]
     (sample_params 2) [] = (Some STD_LENGTH_ERROR, [])"
  by (simp add: ivf_eval short_value_store_def sample_params_def)

lemma ivf_short_value_no_predicate:
  "ivf_knn_search (sample_ivf short_value_store) None None None [0] (sample_params 2) []
   = (Some HA_ERR_ROCKSDB_CORRUPT_DATA, [])"
  by (simp add: ivf_eval short_value_store_def sample_params_def)

lemma ivf_empty_value_no_predicate:
  "ivf_knn_search (sample_ivf empty_value_store) None None None [0] (sample_params 2) []
   = (Some HA_ERR_ROCKSDB_CORRUPT_DATA, [])"
  by (simp add: ivf_eval empty_value_store_def sample_params_def)



lemma length_be_bytes: "length (be_bytes n v) = n"
  by (induction n) simp_all

lemma foldl_be_bytes:
  "foldl (\<lambda>a b. a * 256 + unat b) a (be_bytes n v) = a * 256 ^ n + v mod 256 ^ n"
proof (induction n arbitrary: a)
  case 0
  then show ?case by simp
next
  case (Suc n)
  have b: "unat (word_of_nat (v div 256 ^ n) :: byte) = (v div 256 ^ n) mod 256"
    by (simp add: unat_of_nat)
  have m: "256 ^ n * ((v div 256 ^ n) mod 256) + v mod 256 ^ n = v mod (256 ^ n * 256)"
    by (simp add: mod_mult2_eq)
  have "foldl (\<lambda>a b. a * 256 + unat b) a (be_bytes (Suc n) v)
        = (a * 256 + (v div 256 ^ n) mod 256) * 256 ^ n + v mod 256 ^ n"
    by (simp add: Suc.IH b)
  also have "\<dots> = a * (256 ^ n * 256) + (256 ^ n * ((v div 256 ^ n) mod 256) + v mod 256 ^ n)"
    by (simp add: algebra_simps)
  also have "\<dots> = a * (256 ^ n * 256) + v mod (256 ^ n * 256)"
    by (simp only: m)
  finally show ?case by (simp add: mult.commute)
qed

lemma be_nat_be_bytes: "be_nat (be_bytes n v) = v mod 256 ^ n"
  by (simp add: be_nat_def foldl_be_bytes)

lemma read_written_key:
  "read_inverted_list_key (write_inverted_list_key index_id list_id @ pk_suffix) index_id list_id
   = Inr pk_suffix"
proof -
  have i: "(word_of_nat (unat index_id mod 256 ^ 4) :: 32 word) = index_id"
  proof -
    have "unat index_id < 256 ^ 4" using unsigned_less [of index_id, where 'a = nat] by simp
    then show ?thesis by simp
  qed
  have l: "(word_of_nat (unat list_id mod 256 ^ 8) :: 64 word) = list_id"
  proof -
    have "unat list_id < 256 ^ 8" using unsigned_less [of list_id, where 'a = nat] by simp
    then show ?thesis by simp
  qed
  show ?thesis
    using i l
    by (simp add: read_inverted_list_key_def write_inverted_list_key_def length_be_bytes
          be_nat_be_bytes Let_def)
qed

text \<open>
  C9. A record whose key is exactly \<open>BE32(index_id) || BE64(list_id)\<close> for the
  iterator's index and list, with nothing after it, is rejected by both
  \<open>get_key_and_codes\<close> and \<open>get_key_and_value\<close> with \<open>HA_ERR_ROCKSDB_CORRUPT_DATA\<close>,
  whatever its value; the context is left as it was.
\<close>

theorem empty_pk_suffix_is_corrupt:
  "m_iterator it = (write_inverted_list_key (m_index_id it) (m_list_id it), val) # later
   \<Longrightarrow> get_key_and_codes uh ctx it = (ctx, Inl HA_ERR_ROCKSDB_CORRUPT_DATA)
       \<and> get_key_and_value uh it need_value = Inl HA_ERR_ROCKSDB_CORRUPT_DATA"
  using read_written_key [of "m_index_id it" "m_list_id it" "[]"]
  by (simp add: get_key_and_codes_def get_key_and_value_def)

theorem empty_pk_suffix_is_corrupt_witness:
  "m_iterator (new_iterator [(write_inverted_list_key 7 0, [1, 2, 3, 4])] 7 4 0)
     = [(write_inverted_list_key 7 0, [1, 2, 3, 4])]
   \<and> get_key_and_codes sample_unpack_header (new_context None None None)
         (new_iterator [(write_inverted_list_key 7 0, [1, 2, 3, 4])] 7 4 0)
       = (new_context None None None, Inl HA_ERR_ROCKSDB_CORRUPT_DATA)
   \<and> get_key_and_value sample_unpack_header
         (new_iterator [(write_inverted_list_key 7 0, [1, 2, 3, 4])] 7 4 0) True
       = Inl HA_ERR_ROCKSDB_CORRUPT_DATA"
proof -
  have it: "m_iterator (new_iterator [(write_inverted_list_key 7 0, [1, 2, 3, 4])] 7 4 0)
     = (write_inverted_list_key
          (m_index_id (new_iterator [(write_inverted_list_key 7 0, [1, 2, 3, 4])] 7 4 0))
          (m_list_id (new_iterator [(write_inverted_list_key 7 0, [1, 2, 3, 4])] 7 4 0)),
        [1, 2, 3, 4]) # []"
    by (simp add: new_iterator_bare_key)
  from empty_pk_suffix_is_corrupt [OF it, of sample_unpack_header "new_context None None None" True]
  show ?thesis by (simp add: new_iterator_bare_key)
qed


section \<open>Cancellation\<close>

lemma is_available_loop_killed:
  assumes "m_thd ctx = Some thd" and "killed thd"
  shows "is_available_loop uh ctx it
         = (if m_iterator it \<noteq> [] \<and> m_error ctx = None
            then (ctx\<lparr>m_error := Some HA_ERR_QUERY_INTERRUPTED\<rparr>, it) else (ctx, it))"
  using assms by (subst is_available_loop.simps) simp

lemma is_available_killed:
  assumes "m_thd ctx = Some thd" and "killed thd"
  shows "is_available uh ctx it
         = (if m_error ctx = None
            then if m_iterator it \<noteq> []
                 then (ctx\<lparr>m_error := Some HA_ERR_QUERY_INTERRUPTED, m_current_list_size := 0\<rparr>,
                       it, False)
                 else (on_iterator_end ctx (unat (m_list_id it)), it, False)
            else (ctx\<lparr>m_current_list_size := 0\<rparr>, it, False))"
  by (auto simp: is_available_def is_available_loop_killed [OF assms] on_iterator_end_def)

lemma is_available_loop_error:
  "m_error ctx = Some e \<Longrightarrow> is_available_loop uh ctx it = (ctx, it)"
  by (subst is_available_loop.simps) simp

lemma is_available_error:
  "m_error ctx = Some e \<Longrightarrow> is_available uh ctx it = (ctx\<lparr>m_current_list_size := 0\<rparr>, it, False)"
  by (simp add: is_available_def is_available_loop_error on_iterator_end_def)

lemma scan_codes_error:
  "m_error ctx = Some e \<Longrightarrow> scan_codes uh dc k ctx it h = (ctx\<lparr>m_current_list_size := 0\<rparr>, h)"
  by (subst scan_codes.simps) (simp add: is_available_error)

lemma scan_lists_error:
  "m_error ctx = Some e
   \<Longrightarrow> m_error (fst (scan_lists index dc k list_nos ctx h)) = Some e
       \<and> snd (scan_lists index dc k list_nos ctx h) = h"
proof (induction list_nos arbitrary: ctx)
  case Nil
  then show ?case by simp
next
  case (Cons list_no list_nos)
  show ?case
  proof (cases "list_no < 0")
    case True
    with Cons show ?thesis by simp
  next
    case False
    have "m_error (ctx\<lparr>m_current_list_size := 0\<rparr>) = Some e" using Cons.prems by simp
    from Cons.IH [OF this] False Cons.prems show ?thesis
      by (simp add: scan_codes_error)
  qed
qed

lemma scan_codes_killed:
  assumes "m_thd ctx = Some thd" and "killed thd" and "m_error ctx = None"
  shows "scan_codes uh dc k ctx it h
         = (if m_iterator it \<noteq> []
            then (ctx\<lparr>m_error := Some HA_ERR_QUERY_INTERRUPTED, m_current_list_size := 0\<rparr>, h)
            else (on_iterator_end ctx (unat (m_list_id it)), h))"
  using assms(3) by (subst scan_codes.simps) (simp add: is_available_killed [OF assms(1,2)])

lemma scan_lists_killed:
  assumes "killed thd"
  shows "m_thd ctx = Some thd \<Longrightarrow> m_error ctx = None
   \<Longrightarrow> \<exists>list_no\<in>set list_nos. 0 \<le> list_no
         \<and> m_iterator (new_iterator (ivf_store index) (ivf_index_id index) (ivf_code_size index)
               (word_of_int list_no)) \<noteq> []
   \<Longrightarrow> m_error (fst (scan_lists index dc k list_nos ctx h)) = Some HA_ERR_QUERY_INTERRUPTED
       \<and> snd (scan_lists index dc k list_nos ctx h) = h"
proof (induction list_nos arbitrary: ctx)
  case Nil
  then show ?case by simp
next
  case (Cons list_no list_nos)
  let ?it = "new_iterator (ivf_store index) (ivf_index_id index) (ivf_code_size index)
               (word_of_int list_no)"
  show ?case
  proof (cases "list_no < 0")
    case True
    with Cons show ?thesis by auto
  next
    case False
    show ?thesis
    proof (cases "m_iterator ?it = []")
      case empty: True
      let ?ctx1 = "on_iterator_end ctx (unat (m_list_id ?it))"
      have s: "scan_codes (ivf_unpack_header index) dc k ctx ?it h = (?ctx1, h)"
        using empty by (simp add: scan_codes_killed [OF Cons.prems(1) assms Cons.prems(2)])
      have c1: "m_thd ?ctx1 = Some thd" "m_error ?ctx1 = None"
        using Cons.prems by (simp_all add: on_iterator_end_def)
      have "\<exists>list_no\<in>set list_nos. 0 \<le> list_no
         \<and> m_iterator (new_iterator (ivf_store index) (ivf_index_id index) (ivf_code_size index)
               (word_of_int list_no)) \<noteq> []"
        using Cons.prems(3) empty by auto
      from Cons.IH [OF c1 this] False s show ?thesis by (simp)
    next
      case nonempty: False
      let ?ctx1 = "ctx\<lparr>m_error := Some HA_ERR_QUERY_INTERRUPTED, m_current_list_size := 0\<rparr>"
      have s: "scan_codes (ivf_unpack_header index) dc k ctx ?it h = (?ctx1, h)"
        using nonempty by (simp add: scan_codes_killed [OF Cons.prems(1) assms Cons.prems(2)])
      have "m_error ?ctx1 = Some HA_ERR_QUERY_INTERRUPTED" by simp
      from scan_lists_error [OF this] False s show ?thesis by (simp)
    qed
  qed
qed

lemma ivf_knn_search_error:
  "m_error (fst (faiss_search index (new_context thd pk_index_cond sk_descr) query_vector
             (unat (m_k params)) (unat (m_nprobe params)) (m_metric params))) = Some e
   \<Longrightarrow> ivf_knn_search index thd pk_index_cond sk_descr query_vector params result
       = (Some e, result)"
  by (auto simp: ivf_knn_search_def split: prod.splits)

lemma ivf_knn_search_killed:
  assumes "killed thd"
    and "\<exists>list_no\<in>set (quantizer_search index query_vector (unat (m_nprobe params))).
           0 \<le> list_no
           \<and> m_iterator (new_iterator (ivf_store index) (ivf_index_id index) (ivf_code_size index)
                 (word_of_int list_no)) \<noteq> []"
  shows "ivf_knn_search index (Some thd) pk_index_cond sk_descr query_vector params result
         = (Some HA_ERR_QUERY_INTERRUPTED, result)"
proof -
  have "m_thd (new_context (Some thd) pk_index_cond sk_descr) = Some thd"
    and "m_error (new_context (Some thd) pk_index_cond sk_descr) = None"
    by (simp_all add: new_context_def)
  from scan_lists_killed [OF assms(1) this assms(2)]
  have "m_error (fst (scan_lists index (code_distance index (m_metric params) query_vector)
             (unat (m_k params)) (quantizer_search index query_vector (unat (m_nprobe params)))
             (new_context (Some thd) pk_index_cond sk_descr) [])) = Some HA_ERR_QUERY_INTERRUPTED"
    by simp
  then show ?thesis
    by (intro ivf_knn_search_error) (auto simp: faiss_search_def split: prod.splits)
qed

text \<open>
  C7, as the code has it. In the IVF inverted-list iterator the kill flag is read
  on every step: with the flag set, \<open>is_available\<close> returns false; if the iterator
  stands on a record and no error is recorded, it records
  \<open>HA_ERR_QUERY_INTERRUPTED\<close>, the scan of the list stops without consuming a row,
  the error survives the remaining lists, and \<open>knn_search\<close> returns it with the
  result vector untouched. For a query whose flag is set from the start this holds
  as soon as one probed list holds a record. The LSM scans take the session but
  never read the flag: their outcome is the same for every session.
\<close>

theorem cancellation_checked_by_ivf_iterator:
  "killed thd \<longrightarrow>
     (m_thd ctx = Some thd \<longrightarrow> \<not> snd (snd (is_available uh ctx it)))
   \<and> (m_thd ctx = Some thd \<and> m_error ctx = None \<and> m_iterator it \<noteq> [] \<longrightarrow>
        m_error (fst (is_available uh ctx it)) = Some HA_ERR_QUERY_INTERRUPTED
        \<and> snd (scan_codes uh dc k ctx it h) = h
        \<and> m_error (fst (scan_codes uh dc k ctx it h)) = Some HA_ERR_QUERY_INTERRUPTED
        \<and> m_error (fst (scan_lists index dc k list_nos (fst (scan_codes uh dc k ctx it h)) h))
            = Some HA_ERR_QUERY_INTERRUPTED
        \<and> snd (scan_lists index dc k list_nos (fst (scan_codes uh dc k ctx it h)) h) = h)
   \<and> ((\<exists>list_no\<in>set (quantizer_search index query_vector (unat (m_nprobe params))).
           0 \<le> list_no
           \<and> m_iterator (new_iterator (ivf_store index) (ivf_index_id index) (ivf_code_size index)
                 (word_of_int list_no)) \<noteq> [])
        \<longrightarrow> ivf_knn_search index (Some thd) pk_index_cond sk_descr query_vector params result
            = (Some HA_ERR_QUERY_INTERRUPTED, result))
   \<and> knn_search_with_value lsm (Some thd) query_vector params
       = knn_search_with_value lsm None query_vector params
   \<and> knn_search_hybrid_with_value lsm (Some thd) query_vector params
       = knn_search_hybrid_with_value lsm None query_vector params
   \<and> index_scan_with_value lsm (Some thd) query_vector nprobe
       = index_scan_with_value lsm None query_vector nprobe"
proof (intro impI conjI)
  assume k: "killed thd"
  {
    assume t: "m_thd ctx = Some thd"
    show "\<not> snd (snd (is_available uh ctx it))"
      by (simp add: is_available_killed [OF t k])
  }
  {
    assume a: "m_thd ctx = Some thd \<and> m_error ctx = None \<and> m_iterator it \<noteq> []"
    then have t: "m_thd ctx = Some thd" and e: "m_error ctx = None" and v: "m_iterator it \<noteq> []"
      by simp_all
    show "m_error (fst (is_available uh ctx it)) = Some HA_ERR_QUERY_INTERRUPTED"
      using e v by (simp add: is_available_killed [OF t k])
    have s: "scan_codes uh dc k ctx it h
             = (ctx\<lparr>m_error := Some HA_ERR_QUERY_INTERRUPTED, m_current_list_size := 0\<rparr>, h)"
      using v by (simp add: scan_codes_killed [OF t k e])
    show "snd (scan_codes uh dc k ctx it h) = h" by (simp add: s)
    show "m_error (fst (scan_codes uh dc k ctx it h)) = Some HA_ERR_QUERY_INTERRUPTED"
      by (simp add: s)
    have "m_error (ctx\<lparr>m_error := Some HA_ERR_QUERY_INTERRUPTED, m_current_list_size := 0\<rparr>)
          = Some HA_ERR_QUERY_INTERRUPTED" by simp
    from scan_lists_error [OF this, of index dc k list_nos h]
    show "m_error (fst (scan_lists index dc k list_nos (fst (scan_codes uh dc k ctx it h)) h))
            = Some HA_ERR_QUERY_INTERRUPTED"
      and "snd (scan_lists index dc k list_nos (fst (scan_codes uh dc k ctx it h)) h) = h"
      by (simp_all add: s)
  }
  {
    assume "\<exists>list_no\<in>set (quantizer_search index query_vector (unat (m_nprobe params))).
           0 \<le> list_no
           \<and> m_iterator (new_iterator (ivf_store index) (ivf_index_id index) (ivf_code_size index)
                 (word_of_int list_no)) \<noteq> []"
    from ivf_knn_search_killed [OF k this]
    show "ivf_knn_search index (Some thd) pk_index_cond sk_descr query_vector params result
            = (Some HA_ERR_QUERY_INTERRUPTED, result)" .
  }
  show "knn_search_with_value lsm (Some thd) query_vector params
       = knn_search_with_value lsm None query_vector params"
    by (simp add: knn_search_with_value_def)
  show "knn_search_hybrid_with_value lsm (Some thd) query_vector params
       = knn_search_hybrid_with_value lsm None query_vector params"
    by (simp add: knn_search_hybrid_with_value_def)
  show "index_scan_with_value lsm (Some thd) query_vector nprobe
       = index_scan_with_value lsm None query_vector nprobe"
    by (simp add: index_scan_with_value_def)
qed

theorem cancellation_checked_by_ivf_iterator_witness:
  "killed \<lparr>killed = True\<rparr>
   \<and> m_iterator (new_iterator (ivf_store (sample_ivf good_store))
        (ivf_index_id (sample_ivf good_store)) (ivf_code_size (sample_ivf good_store))
        (word_of_int 0)) \<noteq> []
   \<and> ivf_knn_search (sample_ivf good_store) (Some \<lparr>killed = True\<rparr>) None None [0]
        (sample_params 2) [] = (Some HA_ERR_QUERY_INTERRUPTED, [])"
proof (intro conjI)
  show k: "killed \<lparr>killed = True\<rparr>" by simp
  show v: "m_iterator (new_iterator (ivf_store (sample_ivf good_store))
        (ivf_index_id (sample_ivf good_store)) (ivf_code_size (sample_ivf good_store))
        (word_of_int 0)) \<noteq> []"
    by (simp add: sample_ivf_def good_store_def new_iterator_two)
  have "\<exists>list_no\<in>set (quantizer_search (sample_ivf good_store) [0]
                          (unat (m_nprobe (sample_params 2)))).
           0 \<le> list_no
           \<and> m_iterator (new_iterator (ivf_store (sample_ivf good_store))
                 (ivf_index_id (sample_ivf good_store)) (ivf_code_size (sample_ivf good_store))
                 (word_of_int list_no)) \<noteq> []"
    using v by (simp add: sample_ivf_def)
  with k cancellation_checked_by_ivf_iterator
         [of "\<lparr>killed = True\<rparr>" _ _ _ _ _ _ "sample_ivf good_store" _ "[0]" "sample_params 2"]
  show "ivf_knn_search (sample_ivf good_store) (Some \<lparr>killed = True\<rparr>) None None [0]
        (sample_params 2) [] = (Some HA_ERR_QUERY_INTERRUPTED, [])"
    by blast
qed

text \<open>
  The LSM scan under a session whose kill flag is set: it runs to the end and
  returns its two rows.
\<close>

theorem lsm_scan_ignores_kill_flag:
  "killed \<lparr>killed = True\<rparr>
   \<and> knn_search_with_value sample_lsm (Some \<lparr>killed = True\<rparr>) [0] (sample_params 2)
       = Inr [([0x67], (1, sample_value wkb_antipode 1)), ([0x61], (9, sample_value wkb_origin 3))]"
  by (simp add: knn_sample)

text \<open>
  C5 on the code: an inverted-list entry whose value is shorter than the code size,
  in a search with a pushed-down predicate. \<open>is_available\<close> calls
  \<open>get_key_and_value\<close> first, whose test \<open>value_bytes < 0\<close> on an \<open>unsigned long\<close>
  never holds: for the empty value the tag byte is read outside the value, and for
  a value of \<open>code_size - 1\<close> bytes that starts with a header tag
  \<open>value.reserve\<close> is asked for \<open>2^64 - 1\<close> bytes. Neither search returns
  \<open>HA_ERR_ROCKSDB_CORRUPT_DATA\<close>; without the predicate both do.
\<close>

theorem short_value_under_predicate_not_reported_corrupt:
  "ivf_knn_search (sample_ivf empty_value_store) None (Some always_true) (Some unpack_ok) [0]
     (sample_params 2) [] = (Some UNDEFINED_BEHAVIOUR, [])
   \<and> ivf_knn_search (sample_ivf short_value_store) None (Some always_true) (Some unpack_ok) [0]
       (sample_params 2) [] = (Some STD_LENGTH_ERROR, [])
   \<and> ivf_knn_search (sample_ivf empty_value_store) None None None [0] (sample_params 2) []
       = (Some HA_ERR_ROCKSDB_CORRUPT_DATA, [])
   \<and> ivf_knn_search (sample_ivf short_value_store) None None None [0] (sample_params 2) []
       = (Some HA_ERR_ROCKSDB_CORRUPT_DATA, [])"
  by (simp add: ivf_empty_value_with_predicate ivf_short_value_with_predicate
        ivf_empty_value_no_predicate ivf_short_value_no_predicate)

section \<open>The handler on the sample tables\<close>

lemma handler_hybrid_sample:
  "handler_knn_search_hybrid (sample_handler 1) thd (Lsm_index sample_lsm) sk_descr pk_index_cond
   = (None, (sample_handler 1)\<lparr>m_search_result_with_value :=
        [([0x67], (1, sample_value wkb_antipode 1)), ([0x61], (9, sample_value wkb_origin 3)),
         ([0x62], (16, sample_value wkb_origin 4)), ([0x64], (25, sample_value wkb_origin 5)),
         ([0x65], (36, sample_value wkb_origin 6))]\<rparr>)"
proof -
  have p: "\<lparr>m_metric = METRIC_L2, m_k = 5, m_nprobe = 1, m_weight = 1,
            m_query_coordinate = wkb_origin\<rparr> = sample_params 5"
    by (simp add: sample_params_def)
  have d: "dimension (Lsm_index sample_lsm) = 1"
    by (simp add: dimension_def sample_lsm_def)
  show ?thesis
    by (simp add: handler_knn_search_hybrid_def sample_handler_def d Let_def
          virtual_knn_search_hybrid_with_value_def p hybrid_sample)
qed

lemma decode_pair:
  "DecodeFieldFromValue sample_config sample_fields [8] pair_value = Inr [json_pair]"
  by code_simp

lemma extract_pair: "ExtractVectorFromJson float_type json_pair = Inr [3, 4]"
  by code_simp

lemma pair_value_nonempty: "pair_value \<noteq> []"
  by (simp add: pair_value_def)

lemma pair_search:
  "m_k params = 1 \<Longrightarrow> knn_search_with_value pair_lsm thd [x, y] params
   = Inr [([0x61], ((x - 3) * (x - 3) + (y - 4) * (y - 4), pair_value))]"
  by (simp add: knn_search_with_value_def pair_lsm_def pair_value_nonempty decode_pair
        extract_pair fvec_L2sqr_def heap_step_def pq_push_def heap_to_result_def pq_top_def
        pq_pop_def)

lemma pair_dimension: "dimension (Lsm_index pair_lsm) = 2"
  by (simp add: dimension_def pair_lsm_def)

lemma handler_pair_short:
  "handler_knn_search (pair_handler [3]) thd (Lsm_index pair_lsm) sk_descr pk_index_cond
   = (None, (pair_handler [3])\<lparr>m_buffer := [3, 0],
        m_search_result_with_value := [([0x61], (16, pair_value))]\<rparr>)"
  by (simp add: handler_knn_search_def pair_handler_def Let_def pair_dimension
        virtual_knn_search_with_value_def pair_search numeral_2_eq_2)

lemma handler_pair_padded:
  "handler_knn_search (pair_handler [0, 0]) thd (Lsm_index pair_lsm) sk_descr pk_index_cond
   = (None, (pair_handler [0, 0])\<lparr>m_search_result_with_value := [([0x61], (25, pair_value))]\<rparr>)"
  by (simp add: handler_knn_search_def pair_handler_def Let_def pair_dimension
        virtual_knn_search_with_value_def pair_search)

lemma handler_pair_empty:
  "handler_knn_search (pair_handler []) thd (Lsm_index pair_lsm) sk_descr pk_index_cond
   = (Some HA_ERR_END_OF_FILE, pair_handler [])"
  by (simp add: handler_knn_search_def pair_handler_def Let_def)

lemma handler_pair_long:
  "handler_knn_search (pair_handler [3, 4, 5]) thd (Lsm_index pair_lsm) sk_descr pk_index_cond
   = (Some HA_EXIT_FAILURE, pair_handler [3, 4, 5])"
  by (simp add: handler_knn_search_def pair_handler_def Let_def pair_dimension)


lemma pair_matched_rows: "matched_rows pair_lsm q k nprobe = 1"
  by (simp add: matched_rows_def pair_lsm_def pair_value_nonempty)


section \<open>The number of rows a query returns\<close>




section \<open>The hybrid score\<close>

text \<open>
  C1 on the code: a hybrid query of limit 1 (five heap slots) over the sample
  table. The first five rows of non-empty value fill the heap with their combined
  scores 9, 16, 25, 36 and 49. The last row has vector distance 1 and lies half the
  globe away: its combined score is \<open>1 + 1 * (6371008.8 * pi)\<close>. The evict branch
  compares its vector distance 1 with the top score 49, evicts that row, and
  pushes the new row under the key 1: the row is returned, with score 1.
\<close>

theorem hybrid_evict_branch_uses_vector_distance:
  "handler_knn_search_hybrid (sample_handler 1) None (Lsm_index sample_lsm) None None
   = (None, (sample_handler 1)\<lparr>m_search_result_with_value :=
        [([0x67], (1, sample_value wkb_antipode 1)), ([0x61], (9, sample_value wkb_origin 3)),
         ([0x62], (16, sample_value wkb_origin 4)), ([0x64], (25, sample_value wkb_origin 5)),
         ([0x65], (36, sample_value wkb_origin 6))]\<rparr>)
   \<and> hybrid_distances sample_config sample_fields [0] (0, 0) (sample_value wkb_antipode 1)
       = Inr (1, 6371008.8 * pi)
   \<and> hybrid_distances sample_config sample_fields [0] (0, 0) (sample_value wkb_origin 7)
       = Inr (49, 0)
   \<and> (49 :: real) + 1 * 0 < 1 + 1 * (6371008.8 * pi)"
proof -
  have "(49 :: real) + 1 * 0 < 1 + 1 * (6371008.8 * pi)"
    using pi_ge_two by simp
  then show ?thesis
    by (simp only: handler_hybrid_sample hybrid_distances_far hybrid_distances_near_7 simp_thms)
qed

section \<open>The length of the query vector\<close>

text \<open>
  C6, as the code has it. Both handler entries first return
  \<open>HA_ERR_END_OF_FILE\<close> when the query buffer is empty or the limit is 0, with no
  padding and no search. Otherwise a buffer shorter than the index dimension is
  resized with zeros to exactly the dimension, and the call is the call on the
  padded buffer; a buffer longer than the dimension is rejected with
  \<open>HA_EXIT_FAILURE\<close> and no index entry is called: the result vectors stay empty.
\<close>

theorem query_buffer_padded_or_rejected:
  "(m_buffer h \<noteq> [] \<and> m_limit h \<noteq> 0 \<and> length (m_buffer h) \<le> dimension index \<longrightarrow>
      length (padded (m_buffer h) (dimension index)) = dimension index
      \<and> m_buffer (snd (handler_knn_search h thd index sk_descr pk_index_cond))
          = padded (m_buffer h) (dimension index)
      \<and> handler_knn_search h thd index sk_descr pk_index_cond
          = handler_knn_search (h\<lparr>m_buffer := padded (m_buffer h) (dimension index)\<rparr>)
              thd index sk_descr pk_index_cond
      \<and> m_buffer (snd (handler_knn_search_hybrid h thd index sk_descr pk_index_cond))
          = padded (m_buffer h) (dimension index)
      \<and> handler_knn_search_hybrid h thd index sk_descr pk_index_cond
          = handler_knn_search_hybrid (h\<lparr>m_buffer := padded (m_buffer h) (dimension index)\<rparr>)
              thd index sk_descr pk_index_cond)
   \<and> (m_limit h \<noteq> 0 \<and> dimension index < length (m_buffer h) \<longrightarrow>
      handler_knn_search h thd index sk_descr pk_index_cond
        = (Some HA_EXIT_FAILURE,
           h\<lparr>m_search_result := [], m_search_result_with_value := [],
              m_vector_db_result_iter := 0, m_vector_db_result_with_value_iter := 0\<rparr>)
      \<and> handler_knn_search_hybrid h thd index sk_descr pk_index_cond
        = (Some HA_EXIT_FAILURE,
           h\<lparr>m_search_result_with_value := [], m_vector_db_result_with_value_iter := 0\<rparr>))
   \<and> (m_buffer h = [] \<or> m_limit h = 0 \<longrightarrow>
      handler_knn_search h thd index sk_descr pk_index_cond
        = (Some HA_ERR_END_OF_FILE,
           h\<lparr>m_search_result := [], m_search_result_with_value := [],
              m_vector_db_result_iter := 0, m_vector_db_result_with_value_iter := 0\<rparr>)
      \<and> handler_knn_search_hybrid h thd index sk_descr pk_index_cond
        = (Some HA_ERR_END_OF_FILE,
           h\<lparr>m_search_result_with_value := [], m_vector_db_result_with_value_iter := 0\<rparr>))"
proof (intro conjI impI)
  assume a: "m_buffer h \<noteq> [] \<and> m_limit h \<noteq> 0 \<and> length (m_buffer h) \<le> dimension index"
  show "length (padded (m_buffer h) (dimension index)) = dimension index"
    using a by (simp add: padded_def)
  show "m_buffer (snd (handler_knn_search h thd index sk_descr pk_index_cond))
          = padded (m_buffer h) (dimension index)"
    using a by (simp add: handler_knn_search_def Let_def padded_def
                  split: sum.splits prod.splits)
  show "handler_knn_search h thd index sk_descr pk_index_cond
          = handler_knn_search (h\<lparr>m_buffer := padded (m_buffer h) (dimension index)\<rparr>)
              thd index sk_descr pk_index_cond"
    using a by (simp add: handler_knn_search_def Let_def padded_def)
  show "m_buffer (snd (handler_knn_search_hybrid h thd index sk_descr pk_index_cond))
          = padded (m_buffer h) (dimension index)"
    using a by (simp add: handler_knn_search_hybrid_def Let_def padded_def split: sum.splits)
  show "handler_knn_search_hybrid h thd index sk_descr pk_index_cond
          = handler_knn_search_hybrid (h\<lparr>m_buffer := padded (m_buffer h) (dimension index)\<rparr>)
              thd index sk_descr pk_index_cond"
    using a by (simp add: handler_knn_search_hybrid_def Let_def padded_def)
next
  assume a: "m_limit h \<noteq> 0 \<and> dimension index < length (m_buffer h)"
  then have "m_buffer h \<noteq> []" by auto
  with a show "handler_knn_search h thd index sk_descr pk_index_cond
        = (Some HA_EXIT_FAILURE,
           h\<lparr>m_search_result := [], m_search_result_with_value := [],
              m_vector_db_result_iter := 0, m_vector_db_result_with_value_iter := 0\<rparr>)"
    by (simp add: handler_knn_search_def Let_def)
  from a \<open>m_buffer h \<noteq> []\<close>
  show "handler_knn_search_hybrid h thd index sk_descr pk_index_cond
        = (Some HA_EXIT_FAILURE,
           h\<lparr>m_search_result_with_value := [], m_vector_db_result_with_value_iter := 0\<rparr>)"
    by (simp add: handler_knn_search_hybrid_def Let_def)
next
  assume a: "m_buffer h = [] \<or> m_limit h = 0"
  then show "handler_knn_search h thd index sk_descr pk_index_cond
        = (Some HA_ERR_END_OF_FILE,
           h\<lparr>m_search_result := [], m_search_result_with_value := [],
              m_vector_db_result_iter := 0, m_vector_db_result_with_value_iter := 0\<rparr>)"
    by (auto simp: handler_knn_search_def Let_def)
  from a show "handler_knn_search_hybrid h thd index sk_descr pk_index_cond
        = (Some HA_ERR_END_OF_FILE,
           h\<lparr>m_search_result_with_value := [], m_vector_db_result_with_value_iter := 0\<rparr>)"
    by (auto simp: handler_knn_search_hybrid_def Let_def)
qed

theorem query_buffer_padded_or_rejected_witness:
  "m_buffer (pair_handler [3]) \<noteq> [] \<and> m_limit (pair_handler [3]) \<noteq> 0
   \<and> length (m_buffer (pair_handler [3])) \<le> dimension (Lsm_index pair_lsm)
   \<and> padded (m_buffer (pair_handler [3])) (dimension (Lsm_index pair_lsm)) = [3, 0]
   \<and> handler_knn_search (pair_handler [3]) None (Lsm_index pair_lsm) None None
       = handler_knn_search
           ((pair_handler [3])\<lparr>m_buffer :=
               padded (m_buffer (pair_handler [3])) (dimension (Lsm_index pair_lsm))\<rparr>)
           None (Lsm_index pair_lsm) None None
   \<and> handler_knn_search (pair_handler [3]) None (Lsm_index pair_lsm) None None
       = (None, (pair_handler [3])\<lparr>m_buffer := [3, 0],
            m_search_result_with_value := [([0x61], (16, pair_value))]\<rparr>)
   \<and> m_limit (pair_handler [3, 4, 5]) \<noteq> 0
   \<and> dimension (Lsm_index pair_lsm) < length (m_buffer (pair_handler [3, 4, 5]))
   \<and> handler_knn_search (pair_handler [3, 4, 5]) None (Lsm_index pair_lsm) None None
       = (Some HA_EXIT_FAILURE, pair_handler [3, 4, 5])"
proof -
  have s: "m_buffer (pair_handler [3]) \<noteq> [] \<and> m_limit (pair_handler [3]) \<noteq> 0
           \<and> length (m_buffer (pair_handler [3])) \<le> dimension (Lsm_index pair_lsm)"
    by (simp add: pair_handler_def pair_dimension)
  have l: "m_limit (pair_handler [3, 4, 5]) \<noteq> 0
           \<and> dimension (Lsm_index pair_lsm) < length (m_buffer (pair_handler [3, 4, 5]))"
    by (simp add: pair_handler_def pair_dimension)
  have p: "padded (m_buffer (pair_handler [3])) (dimension (Lsm_index pair_lsm)) = [3, 0]"
    by (simp add: pair_handler_def pair_dimension padded_def numeral_2_eq_2)
  note t = query_buffer_padded_or_rejected [of _ "Lsm_index pair_lsm" None None None]
  have e: "handler_knn_search (pair_handler [3]) None (Lsm_index pair_lsm) None None
       = handler_knn_search
           ((pair_handler [3])\<lparr>m_buffer :=
               padded (m_buffer (pair_handler [3])) (dimension (Lsm_index pair_lsm))\<rparr>)
           None (Lsm_index pair_lsm) None None"
    using t [of "pair_handler [3]", THEN conjunct1, rule_format, OF s] by simp
  have r: "handler_knn_search (pair_handler [3, 4, 5]) None (Lsm_index pair_lsm) None None
       = (Some HA_EXIT_FAILURE, pair_handler [3, 4, 5])"
    using t [of "pair_handler [3, 4, 5]", THEN conjunct2, THEN conjunct1, rule_format, OF l]
    by (simp add: pair_handler_def)
  from s l p e r handler_pair_short [of None None None] show ?thesis by simp
qed

text \<open>
  An empty query buffer on an index of dimension 2: it is shorter than the
  dimension, yet it is not padded and nothing is searched, while the explicitly
  padded query \<open>[0, 0]\<close> returns a row.
\<close>

theorem empty_query_buffer_not_padded:
  "length (m_buffer (pair_handler [])) < dimension (Lsm_index pair_lsm)
   \<and> handler_knn_search (pair_handler []) None (Lsm_index pair_lsm) None None
       = (Some HA_ERR_END_OF_FILE, pair_handler [])
   \<and> handler_knn_search (pair_handler (padded [] 2)) None (Lsm_index pair_lsm) None None
       = (None, (pair_handler [0, 0])\<lparr>m_search_result_with_value :=
            [([0x61], (25, pair_value))]\<rparr>)"
proof -
  have "padded [] 2 = [0, 0 :: real]" by (simp add: padded_def numeral_2_eq_2)
  then show ?thesis
    by (simp add: handler_pair_empty handler_pair_padded pair_dimension) (simp add: pair_handler_def)
qed

section \<open>Reads of the typed-array decoder\<close>

text \<open>
  C4 on the code: a small-format array of one element whose entry has type
  \<open>0x07\<close> (int32, not inlined in the small format) and offset 6. The absolute
  position is 7, which passes the only test made, \<open>value_offset >= length\<close>, on
  an input of 8 bytes; the four bytes at positions 7 to 10 are then read, three of
  them beyond the input. The same holds for type \<open>0x08\<close>; the 8-byte types
  \<open>0x09\<close>, \<open>0x0A\<close> and \<open>0x0B\<close> test \<open>value_offset + 8 > length\<close> and return
  \<open>HA_ERR_ROCKSDB_CORRUPT_DATA\<close>.
\<close>

theorem int32_value_read_past_input:
  "ExtractVectorFromJson float_type [0x02, 1, 0, 8, 0, 0x07, 6, 0] = Inl UNDEFINED_BEHAVIOUR
   \<and> ExtractVectorFromJson float_type [0x02, 1, 0, 8, 0, 0x08, 6, 0] = Inl UNDEFINED_BEHAVIOUR
   \<and> ExtractVectorFromJson float_type [0x02, 1, 0, 8, 0, 0x09, 6, 0]
       = Inl HA_ERR_ROCKSDB_CORRUPT_DATA
   \<and> ExtractVectorFromJson float_type [0x02, 1, 0, 8, 0, 0x0A, 6, 0]
       = Inl HA_ERR_ROCKSDB_CORRUPT_DATA
   \<and> ExtractVectorFromJson float_type [0x02, 1, 0, 8, 0, 0x0B, 6, 0]
       = Inl HA_ERR_ROCKSDB_CORRUPT_DATA
   \<and> ExtractVectorFromJson float_type [0x02, 1, 0, 12, 0, 0x07, 7, 0, 5, 0, 0, 0]
       = Inr [5]"
  by code_simp

section \<open>The row-value decoder against the row encoding\<close>

lemma fold_map_upd:
  "fold (\<lambda>(k, v) m. m(k \<mapsto> v)) xs m = m ++ map_of (rev xs)"
  by (induction xs arbitrary: m) (auto simp: map_add_def fun_eq_iff split: option.splits)

lemma map_of_rev_distinct: "distinct (map fst xs) \<Longrightarrow> map_of (rev xs) = map_of xs"
  by (subst map_of_inject_set) (simp_all add: rev_map [symmetric])

lemma index_to_result_pos_eq:
  "distinct field_indexs
   \<Longrightarrow> index_to_result_pos field_indexs = map_of (zip field_indexs [0..<length field_indexs])"
  by (simp add: index_to_result_pos_def fold_map_upd map_of_rev_distinct)

lemma index_to_result_pos_nth:
  "distinct field_indexs \<Longrightarrow> j < length field_indexs
   \<Longrightarrow> index_to_result_pos field_indexs (field_indexs ! j) = Some j"
  using map_of_zip_nth [of field_indexs "[0..<length field_indexs]" j]
  by (simp add: index_to_result_pos_eq)

lemma index_to_result_pos_Some:
  "distinct field_indexs \<Longrightarrow> index_to_result_pos field_indexs k = Some p
   \<Longrightarrow> p < length field_indexs \<and> field_indexs ! p = k"
  by (auto simp: index_to_result_pos_eq in_set_zip dest!: map_of_SomeD)

lemma field_is_null_eq:
  assumes "decodable_field table_config i f"
    and "nb = (if 0 < null_bytes_length table_config then Some v else None)"
    and "null_bytes_length table_config \<le> length v"
  shows "field_is_null nb f i = Inr (null_bit (take (null_bytes_length table_config) v) i f)"
  using assms by (auto simp: field_is_null_def null_bit_def decodable_field_def length_prefix_ok_def null_bit_in_bitmap_def)

lemma read_le_prefix: "n \<le> length rest \<Longrightarrow> read_le rest 0 n = Inr (le_nat (take n rest))"
  by (simp add: read_le_def)

lemma varchar_len_eq:
  "length_bytes f = 1 \<or> length_bytes f = 2 \<Longrightarrow> length_bytes f \<le> length rest
   \<Longrightarrow> varchar_len f rest = Inr (le_nat (take (length_bytes f) rest))"
  by (auto simp: varchar_len_def read_le_prefix)

lemma blob_len_eq:
  "length_bytes f \<le> 8 \<Longrightarrow> length_bytes f \<le> length rest
   \<Longrightarrow> blob_len f rest = Inr (le_nat (take (length_bytes f) rest))"
  by (simp add: blob_len_def read_le_prefix)

lemma parse_field_eq:
  assumes "decodable_field table_config i f"
  shows "parse_field f rest =
           (case field_slice f rest of None \<Rightarrow> Inl HA_ERR_ROCKSDB_CORRUPT_DATA | Some r \<Rightarrow> Inr r)"
proof (cases "field_type f = MYSQL_TYPE_VARCHAR")
  case True
  with assms have lb: "length_bytes f = 1 \<or> length_bytes f = 2"
    by (simp add: decodable_field_def length_prefix_ok_def null_bit_in_bitmap_def)
  show ?thesis
  proof (cases "length rest < length_bytes f")
    case short: True
    with True show ?thesis by (simp add: parse_field_def field_slice_def is_variable_def)
  next
    case False
    then have "length_bytes f \<le> length rest" by simp
    from varchar_len_eq [OF lb this] True False show ?thesis
      by (simp add: parse_field_def field_slice_def is_variable_def Let_def)
  qed
next
  case nv: False
  show ?thesis
  proof (cases "is_variable f")
    case True
    with assms have lb: "length_bytes f \<le> 8" by (simp add: decodable_field_def length_prefix_ok_def null_bit_in_bitmap_def)
    from True nv have ty: "field_type f = MYSQL_TYPE_BLOB \<or> field_type f = MYSQL_TYPE_JSON
              \<or> field_type f = MYSQL_TYPE_GEOMETRY"
      by (simp add: is_variable_def)
    show ?thesis
    proof (cases "length rest < length_bytes f")
      case short: True
      with True nv ty show ?thesis by (simp add: parse_field_def field_slice_def)
    next
      case False
      then have "length_bytes f \<le> length rest" by simp
      from blob_len_eq [OF lb this] True nv ty False show ?thesis
        by (simp add: parse_field_def field_slice_def Let_def)
    qed
  next
    case False
    then show ?thesis by (simp add: parse_field_def field_slice_def is_variable_def)
  qed
qed

lemma length_store_field: "length (store_field m i fld fv) = length fv"
  by (simp add: store_field_def split: option.splits)

lemma decode_fields_refines:
  assumes inj: "\<forall>k k' p. m k = Some p \<longrightarrow> m k' = Some p \<longrightarrow> k = k'"
    and nb: "nb = (if 0 < null_bytes_length table_config then Some v else None)"
    and v: "null_bytes_length table_config \<le> length v"
  shows "decodable_fields table_config i fis \<Longrightarrow>
     (case row_fields (take (null_bytes_length table_config) v) i fis rest of
        None \<Rightarrow> decode_fields nb m i fis rest fv = Inl HA_ERR_ROCKSDB_CORRUPT_DATA
      | Some slices \<Rightarrow>
          (\<exists>out. decode_fields nb m i fis rest fv = Inr out \<and> length out = length fv
             \<and> length slices = length fis
             \<and> (\<forall>k p. m k = Some p \<longrightarrow> p < length fv \<longrightarrow>
                   out ! p = (if i \<le> k \<and> k < i + length fis then slices ! (k - i) else fv ! p))))"
proof (induction fis arbitrary: i rest fv)
  case Nil
  then show ?case by auto
next
  case (Cons f fis)
  let ?bm = "take (null_bytes_length table_config) v"
  from Cons.prems have wf: "decodable_field table_config i f" and wfs: "decodable_fields table_config (Suc i) fis"
    by simp_all
  have isnull: "field_is_null nb f i = Inr (null_bit ?bm i f)"
    by (rule field_is_null_eq [OF wf nb v])
  have step: "\<And>fld rest'.
     (case row_fields ?bm (Suc i) fis rest' of
        None \<Rightarrow> decode_fields nb m (Suc i) fis rest' (store_field m i fld fv)
                  = Inl HA_ERR_ROCKSDB_CORRUPT_DATA
      | Some slices \<Rightarrow>
          (\<exists>out. decode_fields nb m (Suc i) fis rest' (store_field m i fld fv) = Inr out
             \<and> length out = length fv \<and> length (fld # slices) = length (f # fis)
             \<and> (\<forall>k p. m k = Some p \<longrightarrow> p < length fv \<longrightarrow>
                   out ! p = (if i \<le> k \<and> k < i + length (f # fis)
                              then (fld # slices) ! (k - i) else fv ! p))))"
  proof -
    fix fld rest'
    show "(case row_fields ?bm (Suc i) fis rest' of
        None \<Rightarrow> decode_fields nb m (Suc i) fis rest' (store_field m i fld fv)
                  = Inl HA_ERR_ROCKSDB_CORRUPT_DATA
      | Some slices \<Rightarrow>
          (\<exists>out. decode_fields nb m (Suc i) fis rest' (store_field m i fld fv) = Inr out
             \<and> length out = length fv \<and> length (fld # slices) = length (f # fis)
             \<and> (\<forall>k p. m k = Some p \<longrightarrow> p < length fv \<longrightarrow>
                   out ! p = (if i \<le> k \<and> k < i + length (f # fis)
                              then (fld # slices) ! (k - i) else fv ! p))))"
    proof (cases "row_fields ?bm (Suc i) fis rest'")
      case None
      with Cons.IH [OF wfs, of rest' "store_field m i fld fv"] show ?thesis by simp
    next
      case (Some slices)
      with Cons.IH [OF wfs, of rest' "store_field m i fld fv"] obtain out where
        d: "decode_fields nb m (Suc i) fis rest' (store_field m i fld fv) = Inr out"
        and l: "length out = length fv" and ls: "length slices = length fis"
        and e: "\<And>k p. m k = Some p \<Longrightarrow> p < length fv \<Longrightarrow>
                  out ! p = (if Suc i \<le> k \<and> k < Suc i + length fis then slices ! (k - Suc i)
                             else store_field m i fld fv ! p)"
        by (auto simp: length_store_field)
      have "out ! p = (if i \<le> k \<and> k < i + length (f # fis)
                       then (fld # slices) ! (k - i) else fv ! p)"
        if mk: "m k = Some p" and p: "p < length fv" for k p
      proof (cases "k = i")
        case True
        with e [OF mk p] mk p show ?thesis by (simp add: store_field_def)
      next
        case False
        have "store_field m i fld fv ! p = fv ! p"
        proof (cases "m i")
          case None
          then show ?thesis by (simp add: store_field_def)
        next
          case (Some q)
          with inj mk False have "q \<noteq> p" by auto
          with Some show ?thesis by (simp add: store_field_def)
        qed
        with e [OF mk p] False show ?thesis
          by (auto simp: nth_Cons')
      qed
      with d l ls Some show ?thesis by simp
    qed
  qed
  show ?case
  proof (cases "null_bit ?bm i f")
    case True
    with isnull step [where fld = "[]" and rest' = rest] show ?thesis
      by (cases "row_fields ?bm (Suc i) fis rest") simp_all
  next
    case False
    show ?thesis
    proof (cases "field_slice f rest")
      case None
      with False isnull parse_field_eq [OF wf, of rest] show ?thesis by simp
    next
      case (Some r)
      obtain fld rest' where r: "r = (fld, rest')" by (cases r)
      with Some False isnull parse_field_eq [OF wf, of rest] step [where fld = fld and rest' = rest'] show ?thesis
        by (cases "row_fields ?bm (Suc i) fis rest'") simp_all
    qed
  qed
qed

lemma decodable_fields_take: "decodable_fields table_config i fis \<Longrightarrow> decodable_fields table_config i (take n fis)"
  by (induction fis arbitrary: i n) (auto simp: take_Cons split: nat.splits)

lemma fold_max_eq: "fold max (xs :: nat list) a = Max (insert a (set xs))"
proof (induction xs arbitrary: a)
  case Nil
  then show ?case by simp
next
  case (Cons x xs)
  have "Max (insert (max x a) (set xs)) = Max (insert a (insert x (set xs)))"
  proof (rule antisym)
    show "Max (insert (max x a) (set xs)) \<le> Max (insert a (insert x (set xs)))"
      by (rule Max_mono) (auto simp: max_def)
    show "Max (insert a (insert x (set xs))) \<le> Max (insert (max x a) (set xs))"
      by (rule Max.boundedI) (auto simp: Max_ge_iff)
  qed
  with Cons show ?case by simp
qed

lemma fold_max_parsed:
  "field_indexs \<noteq> [] \<Longrightarrow> Suc (fold max field_indexs 0) = parsed_fields field_indexs"
proof -
  assume "field_indexs \<noteq> []"
  then have "Max (insert 0 (set field_indexs)) = Max (set field_indexs)"
    by (simp add: Max_insert)
  with \<open>field_indexs \<noteq> []\<close> show ?thesis
    by (simp add: fold_max_eq parsed_fields_def)
qed

lemma row_fields_length:
  "row_fields bitmap i fis payload = Some slices \<Longrightarrow> length slices = length fis"
  by (induction fis arbitrary: i payload slices) (auto split: if_splits option.splits)

lemma row_fields_null:
  "row_fields bitmap i fis payload = Some slices \<Longrightarrow> k < length fis
   \<Longrightarrow> null_bit bitmap (i + k) (fis ! k) \<Longrightarrow> slices ! k = []"
proof (induction fis arbitrary: i payload slices k)
  case Nil
  then show ?case by simp
next
  case (Cons f fis)
  show ?case
  proof (cases k)
    case 0
    with Cons.prems show ?thesis by (auto split: if_splits option.splits)
  next
    case (Suc k')
    from Cons.prems obtain fld payload' slices' where
      s: "slices = fld # slices'" and r: "row_fields bitmap (Suc i) fis payload' = Some slices'"
      by (auto split: if_splits option.splits)
    from Cons.prems Suc have "k' < length fis" "null_bit bitmap (Suc i + k') (fis ! k')"
      by simp_all
    from Cons.IH [OF r this] s Suc show ?thesis by simp
  qed
qed

lemma parsed_fields_bound:
  "\<forall>idx\<in>set field_indexs. idx < length field_info_list
   \<Longrightarrow> parsed_fields field_indexs \<le> length field_info_list"
  by (auto simp: parsed_fields_def Suc_le_eq)

lemma index_below_parsed:
  "j < length field_indexs \<Longrightarrow> field_indexs ! j < parsed_fields field_indexs"
  by (auto simp: parsed_fields_def less_Suc_eq_le)

lemma DecodeFieldFromValue_refines:
  assumes d: "distinct field_indexs"
    and wf: "decodable_layout table_config field_info_list"
    and r: "\<forall>idx\<in>set field_indexs. idx < length field_info_list"
  shows "DecodeFieldFromValue table_config field_info_list field_indexs val =
     (case row_slices table_config (take (parsed_fields field_indexs) field_info_list) val of
        None \<Rightarrow> Inl HA_ERR_ROCKSDB_CORRUPT_DATA
      | Some slices \<Rightarrow> Inr (map (\<lambda>idx. slices ! idx) field_indexs))"
proof -
  let ?n = "parsed_fields field_indexs"
  let ?v = "if has_ttl table_config then drop 8 val else val"
  let ?nbl = "null_bytes_length table_config"
  let ?fis = "take ?n field_info_list"
  let ?m = "index_to_result_pos field_indexs"
  let ?nb = "if 0 < ?nbl then Some ?v else None"
  let ?fv = "replicate (length field_indexs) ([] :: bytes)"
  show ?thesis
  proof (cases "(has_ttl table_config \<and> length val < 8) \<or> length ?v < ?nbl")
    case True
    then show ?thesis
      by (auto simp: DecodeFieldFromValue_def row_slices_def Let_def)
  next
    case ok: False
    then have v: "?nbl \<le> length ?v" by auto
    show ?thesis
    proof (cases "field_indexs = []")
      case True
      with ok show ?thesis
        by (auto simp: DecodeFieldFromValue_def row_slices_def Let_def parsed_fields_def)
    next
      case ne: False
      have inj: "\<forall>k k' p. ?m k = Some p \<longrightarrow> ?m k' = Some p \<longrightarrow> k = k'"
        using index_to_result_pos_Some [OF d] by blast
      have wfs: "decodable_fields table_config 0 ?fis"
        using wf by (simp add: decodable_layout_def decodable_fields_take)
      have len: "length ?fis = ?n"
        using parsed_fields_bound [OF r] by simp
      have dec: "DecodeFieldFromValue table_config field_info_list field_indexs val
                 = decode_fields ?nb ?m 0 ?fis (drop ?nbl ?v) ?fv"
        using ok ne r fold_max_parsed [OF ne]
        by (auto simp: DecodeFieldFromValue_def Let_def not_le)
      have rs: "row_slices table_config ?fis val = row_fields (take ?nbl ?v) 0 ?fis (drop ?nbl ?v)"
        using ok by (auto simp: row_slices_def Let_def null_bitmap_def)
      note ref = decode_fields_refines [OF inj refl v wfs, where rest = "drop ?nbl ?v" and fv = ?fv]
      show ?thesis
      proof (cases "row_fields (take ?nbl ?v) 0 ?fis (drop ?nbl ?v)")
        case None
        with ref have "decode_fields ?nb ?m 0 ?fis (drop ?nbl ?v) ?fv
                       = Inl HA_ERR_ROCKSDB_CORRUPT_DATA"
          by simp
        with dec rs None show ?thesis by simp
      next
        case (Some slices)
        with ref obtain out where
          o: "decode_fields ?nb ?m 0 ?fis (drop ?nbl ?v) ?fv = Inr out"
          and l: "length out = length field_indexs"
          and e: "\<And>k p. ?m k = Some p \<Longrightarrow> p < length field_indexs \<Longrightarrow>
                    out ! p = (if k < length ?fis then slices ! k else ?fv ! p)"
          by auto
        have "out = map (\<lambda>idx. slices ! idx) field_indexs"
        proof (rule nth_equalityI)
          show "length out = length (map (\<lambda>idx. slices ! idx) field_indexs)"
            using l by simp
        next
          fix j assume "j < length out"
          with l have j: "j < length field_indexs" by simp
          have "field_indexs ! j < length field_info_list"
            using r j by simp
          with e [OF index_to_result_pos_nth [OF d j] j] index_below_parsed [OF j] len j
          show "out ! j = map (\<lambda>idx. slices ! idx) field_indexs ! j" by simp
        qed
        with dec rs Some o show ?thesis by simp
      qed
    qed
  qed
qed

lemma DecodeFieldFromValue_prefix:
  assumes r: "\<forall>idx\<in>set field_indexs. idx < length field_info_list"
    and t: "take (parsed_fields field_indexs) other_list
            = take (parsed_fields field_indexs) field_info_list"
  shows "DecodeFieldFromValue table_config other_list field_indexs val
         = DecodeFieldFromValue table_config field_info_list field_indexs val"
proof (cases "field_indexs = []")
  case True
  then show ?thesis by (simp add: DecodeFieldFromValue_def Let_def)
next
  case False
  have "length (take (parsed_fields field_indexs) other_list) = parsed_fields field_indexs"
    using parsed_fields_bound [OF r] by (simp add: t)
  then have b: "parsed_fields field_indexs \<le> length other_list" by simp
  have "\<forall>idx\<in>set field_indexs. idx < length other_list"
  proof
    fix idx assume "idx \<in> set field_indexs"
    then obtain j where "j < length field_indexs" "field_indexs ! j = idx"
      by (auto simp: in_set_conv_nth)
    with index_below_parsed [of j field_indexs] b show "idx < length other_list" by simp
  qed
  with r t False fold_max_parsed [OF False] show ?thesis
    by (auto simp: DecodeFieldFromValue_def Let_def not_le)
qed

lemma DecodeFieldFromValue_out_of_range:
  "\<exists>idx\<in>set field_indexs. length field_info_list \<le> idx
   \<Longrightarrow> DecodeFieldFromValue table_config field_info_list field_indexs val
       = Inl HA_ERR_ROCKSDB_CORRUPT_DATA"
  by (auto simp: DecodeFieldFromValue_def Let_def)

text \<open>
  On the layouts whose length prefixes are those of the data model and in which
  every null-bit read of the decoder stays inside the null bitmap, and for
  distinct requested indices within the layout, the decoder's outcome is
  determined by the row encoding over the fields up to the largest requested
  index: if the TTL, the null bitmap, a length prefix or a payload extends past
  the end of the value, it is \<open>HA_ERR_ROCKSDB_CORRUPT_DATA\<close>; otherwise it is the
  slices of the requested fields in the order requested, one for each. A requested
  field whose null bit is set has the empty slice (and, in the row encoding, takes
  no byte of the payload). The descriptors past the largest requested index have
  no influence. A requested index outside the layout gives
  \<open>HA_ERR_ROCKSDB_CORRUPT_DATA\<close>.
\<close>

theorem decoder_agrees_on_decodable_layouts:
  assumes "distinct field_indexs" and "decodable_layout table_config field_info_list"
  shows "((\<forall>idx\<in>set field_indexs. idx < length field_info_list) \<longrightarrow>
      DecodeFieldFromValue table_config field_info_list field_indexs val =
        (case row_slices table_config (take (parsed_fields field_indexs) field_info_list) val of
           None \<Rightarrow> Inl HA_ERR_ROCKSDB_CORRUPT_DATA
         | Some slices \<Rightarrow> Inr (map (\<lambda>idx. slices ! idx) field_indexs))
      \<and> (\<forall>out. DecodeFieldFromValue table_config field_info_list field_indexs val = Inr out \<longrightarrow>
            length out = length field_indexs
            \<and> (\<forall>j < length field_indexs.
                  null_bit (null_bitmap table_config val) (field_indexs ! j)
                    (field_info_list ! (field_indexs ! j)) \<longrightarrow> out ! j = []))
      \<and> (\<forall>other_list. take (parsed_fields field_indexs) other_list
                          = take (parsed_fields field_indexs) field_info_list \<longrightarrow>
            DecodeFieldFromValue table_config other_list field_indexs val
            = DecodeFieldFromValue table_config field_info_list field_indexs val))
   \<and> ((\<exists>idx\<in>set field_indexs. length field_info_list \<le> idx) \<longrightarrow>
        DecodeFieldFromValue table_config field_info_list field_indexs val
        = Inl HA_ERR_ROCKSDB_CORRUPT_DATA)
   \<and> (has_ttl table_config \<and> length val < 8 \<longrightarrow>
        DecodeFieldFromValue table_config field_info_list field_indexs val
        = Inl HA_ERR_ROCKSDB_CORRUPT_DATA)
   \<and> (length (if has_ttl table_config then drop 8 val else val) < null_bytes_length table_config
        \<longrightarrow> DecodeFieldFromValue table_config field_info_list field_indexs val
            = Inl HA_ERR_ROCKSDB_CORRUPT_DATA)"
proof (intro conjI impI allI)
  assume r: "\<forall>idx\<in>set field_indexs. idx < length field_info_list"
  note eq = DecodeFieldFromValue_refines [OF assms r, of val]
  show "DecodeFieldFromValue table_config field_info_list field_indexs val =
        (case row_slices table_config (take (parsed_fields field_indexs) field_info_list) val of
           None \<Rightarrow> Inl HA_ERR_ROCKSDB_CORRUPT_DATA
         | Some slices \<Rightarrow> Inr (map (\<lambda>idx. slices ! idx) field_indexs))"
    by (rule eq)
  {
    fix out
    assume o: "DecodeFieldFromValue table_config field_info_list field_indexs val = Inr out"
    with eq obtain slices where
      s: "row_slices table_config (take (parsed_fields field_indexs) field_info_list) val
          = Some slices"
      and out: "out = map (\<lambda>idx. slices ! idx) field_indexs"
      by (auto split: option.splits)
    show "length out = length field_indexs" by (simp add: out)
    fix j
    assume j: "j < length field_indexs"
      and nul: "null_bit (null_bitmap table_config val) (field_indexs ! j)
                  (field_info_list ! (field_indexs ! j))"
    from s obtain payload where
      rf: "row_fields (null_bitmap table_config val) 0
             (take (parsed_fields field_indexs) field_info_list) payload = Some slices"
      by (auto simp: row_slices_def Let_def split: if_splits)
    have k: "field_indexs ! j < length (take (parsed_fields field_indexs) field_info_list)"
      using index_below_parsed [OF j] parsed_fields_bound [OF r] by simp
    from row_fields_null [OF rf k] nul index_below_parsed [OF j]
    have "slices ! (field_indexs ! j) = []" by simp
    with j show "out ! j = []" by (simp add: out)
  }
  {
    fix other_list
    assume "take (parsed_fields field_indexs) other_list
            = take (parsed_fields field_indexs) field_info_list"
    from DecodeFieldFromValue_prefix [OF r this]
    show "DecodeFieldFromValue table_config other_list field_indexs val
            = DecodeFieldFromValue table_config field_info_list field_indexs val" .
  }
next
  assume "\<exists>idx\<in>set field_indexs. length field_info_list \<le> idx"
  then show "DecodeFieldFromValue table_config field_info_list field_indexs val
        = Inl HA_ERR_ROCKSDB_CORRUPT_DATA"
    by (rule DecodeFieldFromValue_out_of_range)
next
  assume "has_ttl table_config \<and> length val < 8"
  then show "DecodeFieldFromValue table_config field_info_list field_indexs val
        = Inl HA_ERR_ROCKSDB_CORRUPT_DATA"
    by (simp add: DecodeFieldFromValue_def)
next
  assume "length (if has_ttl table_config then drop 8 val else val)
          < null_bytes_length table_config"
  then show "DecodeFieldFromValue table_config field_info_list field_indexs val
        = Inl HA_ERR_ROCKSDB_CORRUPT_DATA"
    by (auto simp: DecodeFieldFromValue_def Let_def)
qed

lemma ttl_layout_decodable: "decodable_layout ttl_config ttl_fields"
  by (simp add: decodable_layout_def ttl_fields_def ttl_config_def decodable_field_def length_prefix_ok_def null_bit_in_bitmap_def is_variable_def
        MYSQL_TYPE_VARCHAR_def MYSQL_TYPE_BLOB_def MYSQL_TYPE_JSON_def MYSQL_TYPE_GEOMETRY_def)

lemma ttl_parsed_fields: "parsed_fields [3, 1, 2] = 4" "parsed_fields [4] = 5"
  by (simp_all add: parsed_fields_def)

lemma ttl_row_slices:
  "row_slices ttl_config (take 4 ttl_fields) ttl_row = Some [[0xAA, 0xBB], [0x61, 0x62], [], [0x07]]"
  by code_simp

lemma ttl_row_overrun: "row_slices ttl_config (take 5 ttl_fields) ttl_row = None"
  by code_simp

theorem decoder_agrees_on_ttl_row:
  "distinct [3, 1, 2 :: nat] \<and> decodable_layout ttl_config ttl_fields
   \<and> list_all (\<lambda>idx. idx < length ttl_fields) [3, 1, 2]
   \<and> row_slices ttl_config (take (parsed_fields [3, 1, 2]) ttl_fields) ttl_row
       = Some [[0xAA, 0xBB], [0x61, 0x62], [], [0x07]]
   \<and> DecodeFieldFromValue ttl_config ttl_fields [3, 1, 2] ttl_row
       = Inr [[0x07], [0x61, 0x62], []]
   \<and> row_slices ttl_config (take (parsed_fields [4]) ttl_fields) ttl_row = None
   \<and> DecodeFieldFromValue ttl_config ttl_fields [4] ttl_row = Inl HA_ERR_ROCKSDB_CORRUPT_DATA"
proof -
  have d: "distinct [3, 1, 2 :: nat]" and d4: "distinct [4 :: nat]" by simp_all
  have r: "\<forall>idx\<in>set [3, 1, 2]. idx < length ttl_fields"
    and r4: "\<forall>idx\<in>set [4]. idx < length ttl_fields"
    by (simp_all add: ttl_fields_def)
  from decoder_agrees_on_decodable_layouts [OF d ttl_layout_decodable, of ttl_row, THEN conjunct1,
         THEN mp, OF r, THEN conjunct1]
  have a: "DecodeFieldFromValue ttl_config ttl_fields [3, 1, 2] ttl_row
           = Inr [[0x07], [0x61, 0x62], []]"
    by (simp only: ttl_parsed_fields ttl_row_slices) simp
  from decoder_agrees_on_decodable_layouts [OF d4 ttl_layout_decodable, of ttl_row, THEN conjunct1,
         THEN mp, OF r4, THEN conjunct1]
  have b: "DecodeFieldFromValue ttl_config ttl_fields [4] ttl_row
           = Inl HA_ERR_ROCKSDB_CORRUPT_DATA"
    by (simp only: ttl_parsed_fields ttl_row_overrun) simp
  have l: "list_all (\<lambda>idx. idx < length ttl_fields) [3, 1, 2]"
    by (simp add: ttl_fields_def)
  from a b d l ttl_layout_decodable show ?thesis
    by (simp only: ttl_parsed_fields ttl_row_slices ttl_row_overrun simp_thms)
qed

text \<open>
  C8 on the code: the layout \<open>late_fields\<close>, whose null bitmap of one byte is the
  \<open>\<lceil>nullable_fields / 8\<rceil>\<close> bytes of the data model, and the request for column 8.
  The decoder reads the null bit of column 8 at \<open>null_bytes[8 / 8]\<close>, bit 0: the
  byte after the bitmap, which is the payload of column 0. In \<open>late_row\<close> that
  column holds 1, so column 8 is taken for null: the decoder returns an empty slice
  for a field that is present with the payload \<open>ab\<close>, and no
  \<open>HA_ERR_ROCKSDB_CORRUPT_DATA\<close> for the read beyond the bitmap. In
  \<open>late_row_even\<close>, where column 0 holds 2, the same request returns \<open>ab\<close>.
\<close>

theorem null_bit_read_beyond_bitmap:
  "null_bytes_length late_config = 1
   \<and> length (filter is_nullable late_fields) = 1
   \<and> DecodeFieldFromValue late_config late_fields [8] late_row = Inr [[]]
   \<and> row_slices late_config late_fields late_row
       = Some [[1], [0], [0], [0], [0], [0], [0], [0], [0x61, 0x62]]
   \<and> DecodeFieldFromValue late_config late_fields [8] late_row_even = Inr [[0x61, 0x62]]
   \<and> \<not> decodable_layout late_config late_fields"
  by code_simp

end
